theory Spec2Isabelle
  imports Complex_Main
begin

section \<open>JavaScript numbers\<close>

text \<open>
  A JavaScript \<open>number\<close> is an IEEE 754 binary64 value: a finite value, one of the two
  zeros, one of the two infinities, or \<open>NaN\<close>. \<open>Num r\<close> is the finite value \<open>r\<close> (\<open>Num 0\<close> is
  \<open>+0\<close>) and \<open>NegZero\<close> is \<open>-0\<close>. A finite value is a binary64 value: the operations below
  return only such values, and the numbers given to the program are such values.
\<close>

datatype jsnum = Num real | NegZero | NaN | PosInf | NegInf

text \<open>The global \<open>isFinite\<close>, the sign bit and the real value of a finite number.\<close>

fun isFinite :: "jsnum \<Rightarrow> bool" where
  "isFinite (Num _) = True"
| "isFinite NegZero = True"
| "isFinite _ = False"

fun js_neg :: "jsnum \<Rightarrow> bool" where
  "js_neg (Num r) = (r < 0)"
| "js_neg NegZero = True"
| "js_neg NegInf = True"
| "js_neg _ = False"

fun js_val :: "jsnum \<Rightarrow> real" where
  "js_val (Num r) = r"
| "js_val _ = 0"

definition is_zero :: "jsnum \<Rightarrow> bool" where
  "is_zero a = (isFinite a \<and> js_val a = 0)"

definition js_zero :: "bool \<Rightarrow> jsnum" where
  "js_zero negative = (if negative then NegZero else Num 0)"

definition js_inf :: "bool \<Rightarrow> jsnum" where
  "js_inf negative = (if negative then NegInf else PosInf)"

subsection \<open>Rounding to binary64\<close>

text \<open>
  \<open>pow2 e\<close> is \<open>2\<close> to the power \<open>e\<close>. \<open>round_even\<close> rounds a real to the nearest integer,
  a tie going to the even one. \<open>round_mag\<close> rounds a positive real to the nearest multiple of
  the unit in the last place of its binade: the exponent is at least -1022 (below it the
  values are subnormal) and the significand has 53 bits. \<open>fl\<close> is the rounding of IEEE 754,
  to nearest and ties to even: a result of \<open>2^1024\<close> or more is an infinity, and a result
  rounded to zero keeps the sign.
\<close>

definition pow2 :: "int \<Rightarrow> real" where
  "pow2 e = (if 0 \<le> e then 2 ^ nat e else 1 / 2 ^ nat (- e))"

definition round_even :: "real \<Rightarrow> int" where
  "round_even m =
     (let f = \<lfloor>m\<rfloor>; d = m - of_int f
      in if d < 1 / 2 then f else if 1 / 2 < d then f + 1 else if even f then f else f + 1)"

definition round_mag :: "real \<Rightarrow> real" where
  "round_mag a =
     (let e = max \<lfloor>log 2 a\<rfloor> (- 1022); ulp = pow2 (e - 52)
      in of_int (round_even (a / ulp)) * ulp)"

definition fl :: "real \<Rightarrow> jsnum" where
  "fl r =
     (if r = 0 then Num 0
      else
        let m = round_mag \<bar>r\<bar>
        in if pow2 1024 \<le> m then js_inf (r < 0)
           else if m = 0 then js_zero (r < 0)
           else Num (if r < 0 then - m else m))"

text \<open>
  The finite binary64 values are multiples of \<open>2^-1074\<close>; \<open>js_grid\<close> says so of a number.
\<close>

definition js_grid :: "jsnum \<Rightarrow> bool" where
  "js_grid a = (case a of Num v \<Rightarrow> (\<exists>n::int. v = of_int n * pow2 (- 1074)) | _ \<Rightarrow> True)"

subsection \<open>Arithmetic and comparison\<close>

text \<open>
  Each operation is the exact result, rounded by \<open>fl\<close>, with the special cases of IEEE 754:
  an exact zero result has the sign the standard gives it, \<open>Infinity - Infinity\<close>,
  \<open>0 * Infinity\<close>, \<open>0 / 0\<close> and \<open>Infinity / Infinity\<close> are \<open>NaN\<close>, and a non-zero number divided
  by a zero is an infinity. A numeric literal such as \<open>0.7\<close> is \<open>fl (7 / 10)\<close>.
\<close>

fun js_negate :: "jsnum \<Rightarrow> jsnum" where
  "js_negate (Num r) = (if r = 0 then NegZero else Num (- r))"
| "js_negate NegZero = Num 0"
| "js_negate NaN = NaN"
| "js_negate PosInf = NegInf"
| "js_negate NegInf = PosInf"

definition js_add :: "jsnum \<Rightarrow> jsnum \<Rightarrow> jsnum" where
  "js_add a b =
     (if a = NaN \<or> b = NaN then NaN
      else if isFinite a \<and> isFinite b then
        let r = js_val a + js_val b
        in if r = 0 then js_zero (js_neg a \<and> js_neg b) else fl r
      else if isFinite a then b
      else if isFinite b then a
      else if a = b then a
      else NaN)"

definition js_sub :: "jsnum \<Rightarrow> jsnum \<Rightarrow> jsnum" where
  "js_sub a b = js_add a (js_negate b)"

definition js_mul :: "jsnum \<Rightarrow> jsnum \<Rightarrow> jsnum" where
  "js_mul a b =
     (if a = NaN \<or> b = NaN then NaN
      else if isFinite a \<and> isFinite b then
        let r = js_val a * js_val b
        in if r = 0 then js_zero (js_neg a \<noteq> js_neg b) else fl r
      else if is_zero a \<or> is_zero b then NaN
      else js_inf (js_neg a \<noteq> js_neg b))"

definition js_div :: "jsnum \<Rightarrow> jsnum \<Rightarrow> jsnum" where
  "js_div a b =
     (if a = NaN \<or> b = NaN then NaN
      else if isFinite a \<and> isFinite b then
        if is_zero b then (if is_zero a then NaN else js_inf (js_neg a \<noteq> js_neg b))
        else if is_zero a then js_zero (js_neg a \<noteq> js_neg b)
        else fl (js_val a / js_val b)
      else if isFinite b then js_inf (js_neg a \<noteq> js_neg b)
      else if isFinite a then js_zero (js_neg a \<noteq> js_neg b)
      else NaN)"

text \<open>
  \<open>Math.sqrt\<close> is the correctly rounded square root. \<open>Math.pow(x, 2)\<close> is \<open>x * x\<close>, as the
  power function of the engines computes it for the exponent 2. \<open>Math.round\<close> is the nearest
  integer, a tie going up; a result of zero is \<open>-0\<close> for a negative argument.
\<close>

fun Math_sqrt :: "jsnum \<Rightarrow> jsnum" where
  "Math_sqrt (Num r) = (if r < 0 then NaN else if r = 0 then Num 0 else fl (sqrt r))"
| "Math_sqrt NegZero = NegZero"
| "Math_sqrt PosInf = PosInf"
| "Math_sqrt _ = NaN"

definition Math_pow_2 :: "jsnum \<Rightarrow> jsnum" where
  "Math_pow_2 a = js_mul a a"

fun Math_round :: "jsnum \<Rightarrow> jsnum" where
  "Math_round (Num r) =
     (let n = \<lfloor>r + 1 / 2\<rfloor> in if n = 0 then js_zero (r < 0) else Num (of_int n))"
| "Math_round a = a"

text \<open>
  \<open><\<close>, \<open>===\<close>, \<open><=\<close>, \<open>>\<close> and \<open>>=\<close> on numbers: false as soon as one side is \<open>NaN\<close>, and the
  two zeros are equal.
\<close>

definition js_lt :: "jsnum \<Rightarrow> jsnum \<Rightarrow> bool" where
  "js_lt a b =
     (if a = NaN \<or> b = NaN then False
      else if a = NegInf then b \<noteq> NegInf
      else if b = PosInf then a \<noteq> PosInf
      else if a = PosInf \<or> b = NegInf then False
      else js_val a < js_val b)"

definition js_eq :: "jsnum \<Rightarrow> jsnum \<Rightarrow> bool" where
  "js_eq a b =
     (if a = NaN \<or> b = NaN then False
      else if isFinite a \<and> isFinite b then js_val a = js_val b
      else a = b)"

definition js_le :: "jsnum \<Rightarrow> jsnum \<Rightarrow> bool" where
  "js_le a b = (js_lt a b \<or> js_eq a b)"

definition js_gt :: "jsnum \<Rightarrow> jsnum \<Rightarrow> bool" where
  "js_gt a b = js_lt b a"

definition js_ge :: "jsnum \<Rightarrow> jsnum \<Rightarrow> bool" where
  "js_ge a b = js_le b a"

section \<open>Types and constants\<close>

text \<open>
  \<open>src/types/index.ts\<close> and \<open>src/config/constants.ts\<close>. Identifiers, keys and error names are
  ASCII and written as \<open>string\<close>; a user-visible message is the list of its UTF-16 code
  units, since the Chinese messages are outside ASCII.
\<close>

type_synonym js_string = "nat list"

definition ascii :: "string \<Rightarrow> js_string" where
  "ascii s = map of_char s"

datatype MeasurementState =
    INITIALIZING
  | WAITING_FOR_FACE
  | FACE_DETECTED
  | WAITING_FOR_CARD
  | MEASURING
  | MEASUREMENT_COMPLETE
  | ERROR

text \<open>The string value of each member of the enum.\<close>

fun MeasurementState_value :: "MeasurementState \<Rightarrow> string" where
  "MeasurementState_value INITIALIZING = ''initializing''"
| "MeasurementState_value WAITING_FOR_FACE = ''waiting_for_face''"
| "MeasurementState_value FACE_DETECTED = ''face_detected''"
| "MeasurementState_value WAITING_FOR_CARD = ''waiting_for_card''"
| "MeasurementState_value MEASURING = ''measuring''"
| "MeasurementState_value MEASUREMENT_COMPLETE = ''measurement_complete''"
| "MeasurementState_value ERROR = ''error''"

datatype FacingMode = user | environment

datatype Language = zh | en

record CameraConfig =
  camera_width :: real
  camera_height :: real
  facingMode :: FacingMode

record DetectionConfig =
  faceConfidenceThreshold :: real
  eyeConfidenceThreshold :: real
  cardConfidenceThreshold :: real

record CardConfig =
  realWidth :: real
  aspectRatioTolerance :: real
  maxTiltAngle :: real

record SmoothingConfig =
  windowSize :: nat
  outlierThreshold :: real

record PerformanceConfig =
  targetFPS :: real
  minFPS :: real

record UIConfig =
  debugMode :: bool
  showFPS :: bool
  language :: Language

record Configuration =
  camera :: CameraConfig
  detection :: DetectionConfig
  card :: CardConfig
  smoothing :: SmoothingConfig
  performance :: PerformanceConfig
  ui :: UIConfig

definition DEFAULT_CONFIG :: Configuration where
  "DEFAULT_CONFIG = \<lparr>
     camera = \<lparr>camera_width = 1280, camera_height = 720, facingMode = user\<rparr>,
     detection = \<lparr>faceConfidenceThreshold = 0.7, eyeConfidenceThreshold = 0.7,
                  cardConfidenceThreshold = 0.6\<rparr>,
     card = \<lparr>realWidth = 85.60, aspectRatioTolerance = 0.1, maxTiltAngle = 15\<rparr>,
     smoothing = \<lparr>windowSize = 5, outlierThreshold = 3\<rparr>,
     performance = \<lparr>targetFPS = 30, minFPS = 20\<rparr>,
     ui = \<lparr>debugMode = False, showFPS = True, language = zh\<rparr>\<rparr>"

definition STANDARD_CARD_ASPECT_RATIO :: real where
  "STANDARD_CARD_ASPECT_RATIO = 1.586"

definition IPD_MIN :: real where
  "IPD_MIN = 40"

definition IPD_MAX :: real where
  "IPD_MAX = 85"

text \<open>\<open>STATUS_MESSAGES\<close>: for each language the object of messages, in the order of the source.\<close>

fun STATUS_MESSAGES :: "Language \<Rightarrow> (string \<times> js_string) list" where
  "STATUS_MESSAGES zh =
     [(''initializing'', [27491, 22312, 21021, 22987, 21270, 31995, 32479, 46, 46, 46]),
      (''waiting_for_face'', [35831, 27491, 23545, 25668, 20687, 22836]),
      (''face_detected'', [20154, 33080, 24050, 26816, 27979, 21040]),
      (''waiting_for_card'', [35831, 25918, 32622, 26631, 20934, 21345, 29255]),
      (''measuring'', [27979, 37327, 20013, 46, 46, 46]),
      (''measurement_complete'', [27979, 37327, 23436, 25104]),
      (''error'', [21457, 29983, 38169, 35823]),
      (''permission_denied'', [35831, 20801, 35768, 35775, 38382, 25668, 20687, 22836]),
      (''camera_not_found'', [26410, 26816, 27979, 21040, 25668, 20687, 22836, 35774, 22791]),
      (''camera_in_use'',
         [25668, 20687, 22836, 27491, 22312, 34987, 20854, 20182, 24212, 29992, 20351, 29992]),
      (''card_tilted'', [35831, 20445, 25345, 21345, 29255, 19982, 33080, 37096, 24179, 34892])]"
| "STATUS_MESSAGES en =
     [(''initializing'', ascii ''Initializing system...''),
      (''waiting_for_face'', ascii ''Please face the camera''),
      (''face_detected'', ascii ''Face detected''),
      (''waiting_for_card'', ascii ''Please place standard card''),
      (''measuring'', ascii ''Measuring...''),
      (''measurement_complete'', ascii ''Measurement complete''),
      (''error'', ascii ''An error occurred''),
      (''permission_denied'', ascii ''Please allow camera access''),
      (''camera_not_found'', ascii ''No camera device detected''),
      (''camera_in_use'', ascii ''Camera is being used by another application''),
      (''card_tilted'', ascii ''Please keep card parallel to face'')]"

text \<open>
  The message of a state in a language, \<open>STATUS_MESSAGES[lang][state]\<close>: a property that
  the object lacks reads as \<open>undefined\<close>, here \<open>None\<close>.
\<close>

definition statusMessage :: "Language \<Rightarrow> MeasurementState \<Rightarrow> js_string option" where
  "statusMessage lang state = map_of (STATUS_MESSAGES lang) (MeasurementState_value state)"

section \<open>FrameProcessor\<close>

text \<open>
  \<open>src/core/FrameProcessor.ts\<close>. The state keeps the size of the offscreen canvas and the
  buffer of frame timestamps; the timestamps are the finite values of \<open>performance.now()\<close>.
\<close>

record FrameProcessor =
  canvas_width :: nat
  canvas_height :: nat
  frameTimestamps :: "real list"

record VideoElement =
  readyState :: nat
  videoWidth :: nat
  videoHeight :: nat

record ImageData =
  image_width :: nat
  image_height :: nat

datatype frame_error = VideoNotReady | VideoDimensionsInvalid

definition HAVE_CURRENT_DATA :: nat where
  "HAVE_CURRENT_DATA = 2"

definition FPS_SAMPLE_SIZE :: nat where
  "FPS_SAMPLE_SIZE = 30"

text \<open>The constructor: a fresh canvas (300 by 150 in a browser) and no timestamp.\<close>

definition new_FrameProcessor :: FrameProcessor where
  "new_FrameProcessor = \<lparr>canvas_width = 300, canvas_height = 150, frameTimestamps = []\<rparr>"

text \<open>
  \<open>recordFrameTimestamp\<close>: push the current time, then drop the oldest entry once the
  buffer is longer than \<open>FPS_SAMPLE_SIZE\<close>. The clock value \<open>now\<close> is an input.
\<close>

definition recordFrameTimestamp :: "real \<Rightarrow> FrameProcessor \<Rightarrow> FrameProcessor" where
  "recordFrameTimestamp now fp =
     (let pushed = frameTimestamps fp @ [now]
      in fp\<lparr>frameTimestamps :=
              (if length pushed > FPS_SAMPLE_SIZE then tl pushed else pushed)\<rparr>)"

text \<open>
  \<open>captureFrame\<close>: both checks throw before anything is changed; otherwise the canvas is
  resized to the video, the frame is read and the timestamp recorded.
\<close>

definition captureFrame ::
  "VideoElement \<Rightarrow> real \<Rightarrow> FrameProcessor \<Rightarrow> frame_error + (ImageData \<times> FrameProcessor)" where
  "captureFrame videoElement now fp =
     (if readyState videoElement < HAVE_CURRENT_DATA then Inl VideoNotReady
      else
        let width = videoWidth videoElement; height = videoHeight videoElement
        in if width = 0 \<or> height = 0 then Inl VideoDimensionsInvalid
           else
             let fp1 = (if canvas_width fp \<noteq> width \<or> canvas_height fp \<noteq> height
                        then fp\<lparr>canvas_width := width, canvas_height := height\<rparr> else fp);
                 imageData = \<lparr>image_width = width, image_height = height\<rparr>
             in Inr (imageData, recordFrameTimestamp now fp1))"

text \<open>
  \<open>getFPS\<close>. The subtraction, the division and the multiplication are those of JavaScript
  numbers; \<open>timeSpan === 0\<close> holds for both zeros.
\<close>

definition getFPS :: "FrameProcessor \<Rightarrow> jsnum" where
  "getFPS fp =
     (if length (frameTimestamps fp) < 2 then Num 0
      else
        let timestamps = frameTimestamps fp;
            timeSpan = js_sub (Num (timestamps ! (length timestamps - 1))) (Num (timestamps ! 0));
            frameCount = Num (real (length timestamps - 1))
        in if js_eq timeSpan (Num 0) then Num 0
           else Math_round (js_mul (js_div frameCount timeSpan) (Num 1000)))"

definition resetFPS :: "FrameProcessor \<Rightarrow> FrameProcessor" where
  "resetFPS fp = fp\<lparr>frameTimestamps := []\<rparr>"

definition dispose_FrameProcessor :: "FrameProcessor \<Rightarrow> FrameProcessor" where
  "dispose_FrameProcessor fp = fp\<lparr>frameTimestamps := []\<rparr>"

text \<open>
  The calls a client can make on a frame processor. A capture that throws leaves the
  processor as it was.
\<close>

datatype fp_call = CaptureFrame VideoElement real | GetFPS | ResetFPS | Dispose

fun fp_step :: "FrameProcessor \<Rightarrow> fp_call \<Rightarrow> FrameProcessor" where
  "fp_step fp (CaptureFrame v now) =
     (case captureFrame v now fp of Inl _ \<Rightarrow> fp | Inr (_, fp') \<Rightarrow> fp')"
| "fp_step fp GetFPS = fp"
| "fp_step fp ResetFPS = resetFPS fp"
| "fp_step fp Dispose = dispose_FrameProcessor fp"

definition fp_run :: "fp_call list \<Rightarrow> FrameProcessor" where
  "fp_run calls = foldl fp_step new_FrameProcessor calls"

section \<open>FaceDetector\<close>

text \<open>
  \<open>src/types/index.ts\<close> and \<open>src/core/FaceDetector.ts\<close>. Coordinates, sizes and scores are
  JavaScript numbers.
\<close>

record BoundingBox =
  box_x :: jsnum
  box_y :: jsnum
  box_width :: jsnum
  box_height :: jsnum

record FaceDetection =
  boundingBox :: BoundingBox
  confidence :: jsnum

text \<open>
  \<open>Array.prototype.sort\<close> with a comparison function. The function gives a number \<open>v\<close>, a
  \<open>NaN\<close> counting as \<open>+0\<close>; \<open>a\<close> comes after \<open>b\<close> when \<open>v > 0\<close>, and the sort is stable. Elements
  are inserted from the right, each one in front of the first element it does not have to
  follow. (Where the comparison function is not consistent, the order is
  implementation-defined; the result is a permutation all the same.)
\<close>

fun js_sort_insert :: "('a \<Rightarrow> 'a \<Rightarrow> jsnum) \<Rightarrow> 'a \<Rightarrow> 'a list \<Rightarrow> 'a list" where
  "js_sort_insert compareFn a [] = [a]"
| "js_sort_insert compareFn a (b # bs) =
     (if js_gt (compareFn a b) (Num 0) then b # js_sort_insert compareFn a bs else a # b # bs)"

fun js_sort :: "('a \<Rightarrow> 'a \<Rightarrow> jsnum) \<Rightarrow> 'a list \<Rightarrow> 'a list" where
  "js_sort compareFn [] = []"
| "js_sort compareFn (a # as) = js_sort_insert compareFn a (js_sort compareFn as)"

text \<open>
  The score that \<open>selectBestFace\<close> gives a face, 70% size and 30% centrality, with the
  operations in the order of the source.
\<close>

definition totalScore :: "FaceDetection \<Rightarrow> jsnum \<Rightarrow> jsnum \<Rightarrow> jsnum" where
  "totalScore face imageWidth imageHeight =
     (let imageCenterX = js_div imageWidth (Num 2);
          imageCenterY = js_div imageHeight (Num 2);
          faceArea = js_mul (box_width (boundingBox face)) (box_height (boundingBox face));
          faceCenterX =
            js_add (box_x (boundingBox face)) (js_div (box_width (boundingBox face)) (Num 2));
          faceCenterY =
            js_add (box_y (boundingBox face)) (js_div (box_height (boundingBox face)) (Num 2));
          distanceFromCenter =
            Math_sqrt
              (js_add (Math_pow_2 (js_div (js_sub faceCenterX imageCenterX) imageWidth))
                      (Math_pow_2 (js_div (js_sub faceCenterY imageCenterY) imageHeight)));
          sizeScore = js_div faceArea (js_mul imageWidth imageHeight);
          centralityScore = js_sub (Num 1) distanceFromCenter
      in js_add (js_mul sizeScore (fl (7 / 10))) (js_mul centralityScore (fl (3 / 10))))"

text \<open>
  \<open>null\<close> is \<open>None\<close>. The scored faces are sorted with the comparison function
  \<open>(a, b) => b.score - a.score\<close>, and the first one wins.
\<close>

definition selectBestFace ::
  "FaceDetection list \<Rightarrow> jsnum \<Rightarrow> jsnum \<Rightarrow> FaceDetection option" where
  "selectBestFace detections imageWidth imageHeight =
     (if length detections = 0 then None
      else if length detections = 1 then Some (detections ! 0)
      else
        let scoredFaces = map (\<lambda>face. (face, totalScore face imageWidth imageHeight)) detections;
            sorted = js_sort (\<lambda>a b. js_sub (snd b) (snd a)) scoredFaces
        in Some (fst (sorted ! 0)))"

text \<open>
  The score as a single formula on the real numbers, with \<open>centerX\<close>, \<open>centerY\<close> the centre
  of the bounding box, for finite arguments; it is compared with \<open>totalScore\<close>, the score
  as the code computes it.
\<close>

definition faceScore :: "FaceDetection \<Rightarrow> jsnum \<Rightarrow> jsnum \<Rightarrow> real" where
  "faceScore face imageWidth imageHeight =
     (let b = boundingBox face;
          W = js_val imageWidth;
          H = js_val imageHeight;
          centerX = js_val (box_x b) + js_val (box_width b) / 2;
          centerY = js_val (box_y b) + js_val (box_height b) / 2
      in 7 / 10 * (js_val (box_width b) * js_val (box_height b)) / (W * H) +
         3 / 10 * (1 - sqrt (((centerX - W / 2) / W) ^ 2 + ((centerY - H / 2) / H) ^ 2)))"

text \<open>
  Two faces centred in an image of 512 by 512, the second twice as wide as the first, and
  both so small that the size term is lost when it is added to the centrality term.
\<close>

definition tiny_face :: FaceDetection where
  "tiny_face =
     \<lparr>boundingBox = \<lparr>box_x = Num (256 - 1 / 2 ^ 31), box_y = Num (256 - 1 / 2 ^ 31),
                      box_width = Num (1 / 2 ^ 30), box_height = Num (1 / 2 ^ 30)\<rparr>,
      confidence = fl (9 / 10)\<rparr>"

definition wider_face :: FaceDetection where
  "wider_face =
     \<lparr>boundingBox = \<lparr>box_x = Num (256 - 1 / 2 ^ 30), box_y = Num (256 - 1 / 2 ^ 31),
                      box_width = Num (1 / 2 ^ 29), box_height = Num (1 / 2 ^ 30)\<rparr>,
      confidence = fl (9 / 10)\<rparr>"

section \<open>CameraManager\<close>

text \<open>
  \<open>src/core/CameraManager.ts\<close>. A media stream and a callback are opaque and carry an
  identifier. A callback returns normally; what calling it does is recorded as an event.
  The browser is an input: whether \<open>navigator.mediaDevices\<close> and its \<open>getUserMedia\<close> exist,
  and whether the promise of \<open>getUserMedia\<close> rejects with an error or resolves with a
  stream.
\<close>

record js_error =
  error_name :: string
  error_message :: js_string

datatype MediaStream = MediaStream nat

datatype callback = Callback nat

datatype callback_event = Invoked callback js_error

record VideoConstraints =
  ideal_width :: nat
  ideal_height :: nat
  video_facingMode :: FacingMode

record MediaStreamConstraints =
  video :: VideoConstraints
  audio :: bool

record MediaDevices =
  getUserMedia :: "(MediaStreamConstraints \<Rightarrow> js_error + MediaStream) option"

record Navigator =
  mediaDevices :: "MediaDevices option"

record CameraManager =
  stream :: "MediaStream option"
  videoElement :: "nat option"
  permissionDeniedCallback :: "callback option"
  initializationErrorCallback :: "callback option"

definition new_CameraManager :: CameraManager where
  "new_CameraManager = \<lparr>stream = None, videoElement = None,
     permissionDeniedCallback = None, initializationErrorCallback = None\<rparr>"

definition onPermissionDenied :: "callback \<Rightarrow> CameraManager \<Rightarrow> CameraManager" where
  "onPermissionDenied cb cm = cm\<lparr>permissionDeniedCallback := Some cb\<rparr>"

definition onInitializationError :: "callback \<Rightarrow> CameraManager \<Rightarrow> CameraManager" where
  "onInitializationError cb cm = cm\<lparr>initializationErrorCallback := Some cb\<rparr>"

definition getStream :: "CameraManager \<Rightarrow> MediaStream option" where
  "getStream cm = stream cm"

text \<open>\<open>handleError\<close>: the callbacks it calls, in order.\<close>

definition handleError :: "js_error \<Rightarrow> CameraManager \<Rightarrow> callback_event list" where
  "handleError error cm =
     (if error_name error = ''NotAllowedError'' \<or> error_name error = ''PermissionDeniedError''
      then (case permissionDeniedCallback cm of
              Some cb \<Rightarrow> [Invoked cb error]
            | None \<Rightarrow> [])
      else (case initializationErrorCallback cm of
              Some cb \<Rightarrow> [Invoked cb error]
            | None \<Rightarrow> []))"

definition notSupportedError :: js_error where
  "notSupportedError = \<lparr>error_name = ''NotSupportedError'',
     error_message = [27983, 35272, 22120, 19981, 25903, 25345, 25668, 20687, 22836, 35775, 38382]\<rparr>"

definition defaultConstraints :: MediaStreamConstraints where
  "defaultConstraints =
     \<lparr>video = \<lparr>ideal_width = 1280, ideal_height = 720, video_facingMode = user\<rparr>,
      audio = False\<rparr>"

text \<open>
  The body of the \<open>try\<close> block of \<open>initialize\<close>: \<open>Inl\<close> is the error thrown in it, \<open>Inr\<close> the
  stream that \<open>getUserMedia\<close> resolved with.
\<close>

definition initialize_try ::
  "Navigator \<Rightarrow> MediaStreamConstraints option \<Rightarrow> js_error + MediaStream" where
  "initialize_try navigator constraints =
     (case mediaDevices navigator of
        None \<Rightarrow> Inl notSupportedError
      | Some devices \<Rightarrow>
          (case getUserMedia devices of
             None \<Rightarrow> Inl notSupportedError
           | Some request \<Rightarrow>
               let finalConstraints =
                     (case constraints of Some c \<Rightarrow> c | None \<Rightarrow> defaultConstraints)
               in request finalConstraints))"

text \<open>
  \<open>initialize\<close>: the result (\<open>Inl\<close> the error rethrown to the caller), the manager afterwards
  and the callbacks called. The stream is assigned only when \<open>getUserMedia\<close> resolves; the
  \<open>catch\<close> block calls \<open>handleError\<close> and then rethrows.
\<close>

definition initialize ::
  "Navigator \<Rightarrow> MediaStreamConstraints option \<Rightarrow> CameraManager \<Rightarrow>
   (js_error + MediaStream) \<times> CameraManager \<times> callback_event list" where
  "initialize navigator constraints cm =
     (case initialize_try navigator constraints of
        Inr s \<Rightarrow> (Inr s, cm\<lparr>stream := Some s\<rparr>, [])
      | Inl error \<Rightarrow> (Inl error, cm, handleError error cm))"

section \<open>EyeDetector\<close>

text \<open>
  \<open>src/core/EyeDetector.ts\<close>. The results of the face mesh are an input: the list of faces,
  each a list of landmarks in normalised coordinates, and the size of the image. A point
  has two coordinates; those of an eye centre are JavaScript numbers.
\<close>

record 'n Point =
  x :: 'n
  y :: 'n

record EyePosition =
  left :: "jsnum Point"
  right :: "jsnum Point"
  eye_confidence :: jsnum

record Landmark =
  lm_x :: jsnum
  lm_y :: jsnum

record Results =
  multiFaceLandmarks :: "Landmark list list option"
  results_image_width :: jsnum
  results_image_height :: jsnum

datatype resolver = Resolver nat

record EyeDetector =
  ready :: bool
  pendingResolve :: "resolver option"
  lastEyePosition :: "EyePosition option"

datatype eye_error = TypeError

datatype resolve_event = Resolved resolver "EyePosition option"

definition LEFT_EYE_INDICES :: "nat list" where
  "LEFT_EYE_INDICES = [33, 133, 159, 145]"

definition RIGHT_EYE_INDICES :: "nat list" where
  "RIGHT_EYE_INDICES = [362, 263, 386, 374]"

text \<open>
  The loop of \<open>calculateEyeCenter\<close>, with the two running sums: each step multiplies and
  adds JavaScript numbers. An index beyond the landmarks reads \<open>undefined\<close>, and reading
  \<open>.x\<close> of it throws a \<open>TypeError\<close>.
\<close>

fun sumLandmarks ::
  "Landmark list \<Rightarrow> nat list \<Rightarrow> jsnum \<Rightarrow> jsnum \<Rightarrow> jsnum \<times> jsnum
     \<Rightarrow> eye_error + (jsnum \<times> jsnum)" where
  "sumLandmarks landmarks [] width height (sumX, sumY) = Inr (sumX, sumY)"
| "sumLandmarks landmarks (index # rest) width height (sumX, sumY) =
     (if index < length landmarks
      then let landmark = landmarks ! index
           in sumLandmarks landmarks rest width height
                (js_add sumX (js_mul (lm_x landmark) width),
                 js_add sumY (js_mul (lm_y landmark) height))
      else Inl TypeError)"

definition calculateEyeCenter ::
  "Landmark list \<Rightarrow> nat list \<Rightarrow> jsnum \<Rightarrow> jsnum \<Rightarrow> eye_error + jsnum Point" where
  "calculateEyeCenter landmarks eyeIndices width height =
     (case sumLandmarks landmarks eyeIndices width height (Num 0, Num 0) of
        Inl e \<Rightarrow> Inl e
      | Inr (sumX, sumY) \<Rightarrow>
          Inr \<lparr>x = js_div sumX (Num (real (length eyeIndices))),
               y = js_div sumY (Num (real (length eyeIndices)))\<rparr>)"

text \<open>
  \<open>processResults\<close>: the eye position of the first face, if there is a face; it is stored
  as the last eye position and the pending promise is resolved with it (or with \<open>null\<close>).
  Nothing compares the two eye centres.
\<close>

definition processResults ::
  "Results \<Rightarrow> EyeDetector \<Rightarrow> eye_error + (EyeDetector \<times> resolve_event list)" where
  "processResults results det =
     (let found =
            (case multiFaceLandmarks results of
               None \<Rightarrow> Inr None
             | Some faces \<Rightarrow>
                 if length faces > 0 then
                   let landmarks = faces ! 0;
                       width = results_image_width results;
                       height = results_image_height results
                   in (case calculateEyeCenter landmarks LEFT_EYE_INDICES width height of
                         Inl e \<Rightarrow> Inl e
                       | Inr leftEyeCenter \<Rightarrow>
                           (case calculateEyeCenter landmarks RIGHT_EYE_INDICES width height of
                              Inl e \<Rightarrow> Inl e
                            | Inr rightEyeCenter \<Rightarrow>
                                Inr (Some \<lparr>left = leftEyeCenter, right = rightEyeCenter,
                                           eye_confidence = fl (9 / 10)\<rparr>)))
                 else Inr None)
      in case found of
           Inl e \<Rightarrow> Inl e
         | Inr eyePosition \<Rightarrow>
             let det1 = (case eyePosition of
                           Some p \<Rightarrow> det\<lparr>lastEyePosition := Some p\<rparr>
                         | None \<Rightarrow> det)
             in (case pendingResolve det1 of
                   Some resolve \<Rightarrow>
                     Inr (det1\<lparr>pendingResolve := None\<rparr>, [Resolved resolve eyePosition])
                 | None \<Rightarrow> Inr (det1, [])))"

definition getLastEyePosition :: "EyeDetector \<Rightarrow> EyePosition option" where
  "getLastEyePosition det = lastEyePosition det"

text \<open>
  The centre of the four landmarks \<open>i1\<close>, \<open>i2\<close>, \<open>i3\<close>, \<open>i4\<close> written out: in each coordinate
  the four products are added to 0 one after the other, and the sum is divided by 4.
\<close>

definition eyeCenter ::
  "Landmark list \<Rightarrow> nat \<Rightarrow> nat \<Rightarrow> nat \<Rightarrow> nat \<Rightarrow> jsnum \<Rightarrow> jsnum \<Rightarrow> jsnum Point" where
  "eyeCenter ls i1 i2 i3 i4 width height =
     \<lparr>x = js_div
            (js_add (js_add (js_add (js_add (Num 0) (js_mul (lm_x (ls ! i1)) width))
               (js_mul (lm_x (ls ! i2)) width)) (js_mul (lm_x (ls ! i3)) width))
               (js_mul (lm_x (ls ! i4)) width))
            (Num 4),
      y = js_div
            (js_add (js_add (js_add (js_add (Num 0) (js_mul (lm_y (ls ! i1)) height))
               (js_mul (lm_y (ls ! i2)) height)) (js_mul (lm_y (ls ! i3)) height))
               (js_mul (lm_y (ls ! i4)) height))
            (Num 4)\<rparr>"

text \<open>
  A face seen mirrored, with 478 landmarks: the four landmarks of the left eye are at
  three quarters of the image width and the four of the right eye at one quarter. The
  upright face has them the other way round.
\<close>

definition mirrored_face :: "Landmark list" where
  "mirrored_face =
     (replicate 478 \<lparr>lm_x = Num (1 / 2), lm_y = Num (1 / 2)\<rparr>)
       [33 := \<lparr>lm_x = Num (3 / 4), lm_y = Num (1 / 2)\<rparr>,
        133 := \<lparr>lm_x = Num (3 / 4), lm_y = Num (1 / 2)\<rparr>,
        159 := \<lparr>lm_x = Num (3 / 4), lm_y = Num (1 / 2)\<rparr>,
        145 := \<lparr>lm_x = Num (3 / 4), lm_y = Num (1 / 2)\<rparr>,
        362 := \<lparr>lm_x = Num (1 / 4), lm_y = Num (1 / 2)\<rparr>,
        263 := \<lparr>lm_x = Num (1 / 4), lm_y = Num (1 / 2)\<rparr>,
        386 := \<lparr>lm_x = Num (1 / 4), lm_y = Num (1 / 2)\<rparr>,
        374 := \<lparr>lm_x = Num (1 / 4), lm_y = Num (1 / 2)\<rparr>]"

definition upright_face :: "Landmark list" where
  "upright_face =
     (replicate 478 \<lparr>lm_x = Num (1 / 2), lm_y = Num (1 / 2)\<rparr>)
       [33 := \<lparr>lm_x = Num (1 / 4), lm_y = Num (1 / 2)\<rparr>,
        133 := \<lparr>lm_x = Num (1 / 4), lm_y = Num (1 / 2)\<rparr>,
        159 := \<lparr>lm_x = Num (1 / 4), lm_y = Num (1 / 2)\<rparr>,
        145 := \<lparr>lm_x = Num (1 / 4), lm_y = Num (1 / 2)\<rparr>,
        362 := \<lparr>lm_x = Num (3 / 4), lm_y = Num (1 / 2)\<rparr>,
        263 := \<lparr>lm_x = Num (3 / 4), lm_y = Num (1 / 2)\<rparr>,
        386 := \<lparr>lm_x = Num (3 / 4), lm_y = Num (1 / 2)\<rparr>,
        374 := \<lparr>lm_x = Num (3 / 4), lm_y = Num (1 / 2)\<rparr>]"

section \<open>DistanceCalculator\<close>

datatype CalcError = InvalidInput | DivisionByZero

text \<open>
  Modelled from the spec: \<open>computeIPD\<close> of the DistanceCalculator. The repository has no
  \<open>DistanceCalculator.ts\<close>; its design document declares the function and sketches it as
  \<open>calculateIPD(eyeDistance, cardWidth)\<close> with the card width 85.60 written in. Following
  the spec, section 4.3, the three inputs are floats, that is JavaScript numbers: it fails
  with \<open>InvalidInput\<close> if an input is not finite or if \<open>cardPixelWidth <= 0\<close>, and otherwise
  returns \<open>(eyePixelDistance / cardPixelWidth) * cardRealWidthMm\<close>, the division and the
  multiplication being those of JavaScript numbers.
\<close>

definition computeIPD :: "jsnum \<Rightarrow> jsnum \<Rightarrow> jsnum \<Rightarrow> CalcError + jsnum" where
  "computeIPD eyePixelDistance cardPixelWidth cardRealWidthMm =
     (if \<not> isFinite eyePixelDistance \<or> \<not> isFinite cardPixelWidth
         \<or> \<not> isFinite cardRealWidthMm
      then Inl InvalidInput
      else if js_le cardPixelWidth (Num 0) then Inl InvalidInput
      else Inr (js_mul (js_div eyePixelDistance cardPixelWidth) cardRealWidthMm))"

section \<open>CardValidator\<close>

record CardDetection =
  corners :: "real Point list"
  card_width :: real
  card_height :: real
  angle :: real
  card_confidence :: real

datatype ValidationReason = OK | AspectRatioOutOfRange | TiltTooHigh | LowConfidence

record ValidationResult =
  isValid :: bool
  reason :: ValidationReason

text \<open>
  Modelled from the spec: \<open>aspectRatio\<close> of GeometryUtils, absent from the repository.
  Section 4.1: \<open>width / height\<close>, failing with \<open>DivisionByZero\<close> if \<open>height == 0\<close>.
\<close>

definition aspectRatio :: "real \<Rightarrow> real \<Rightarrow> CalcError + real" where
  "aspectRatio width height = (if height = 0 then Inl DivisionByZero else Inr (width / height))"

text \<open>
  Modelled from the spec: \<open>validate\<close> of the CardValidator, absent from the repository.
  Section 4.2: it computes the aspect ratio of the candidate detection, then tests the confidence,
  the aspect ratio against \<open>STANDARD_CARD_ASPECT_RATIO\<close> and the tilt, in this order, and
  reports the first test that fails. The thresholds are those of \<open>Configuration\<close>:
  \<open>detection.cardConfidenceThreshold\<close>, \<open>card.aspectRatioTolerance\<close>, \<open>card.maxTiltAngle\<close>.
\<close>

definition validate :: "CardDetection \<Rightarrow> Configuration \<Rightarrow> CalcError + ValidationResult" where
  "validate candidate config =
     (case aspectRatio (card_width candidate) (card_height candidate) of
        Inl e \<Rightarrow> Inl e
      | Inr ratio \<Rightarrow>
          if \<not> card_confidence candidate \<ge> cardConfidenceThreshold (detection config)
          then Inr \<lparr>isValid = False, reason = LowConfidence\<rparr>
          else if \<not> \<bar>ratio - STANDARD_CARD_ASPECT_RATIO\<bar> / STANDARD_CARD_ASPECT_RATIO
                      \<le> aspectRatioTolerance (card config)
          then Inr \<lparr>isValid = False, reason = AspectRatioOutOfRange\<rparr>
          else if \<not> \<bar>angle candidate\<bar> \<le> maxTiltAngle (card config)
          then Inr \<lparr>isValid = False, reason = TiltTooHigh\<rparr>
          else Inr \<lparr>isValid = True, reason = OK\<rparr>)"

section \<open>DataSmoother\<close>

record Sample =
  sample_value :: real
  sample_timestamp :: real

record DataSmoother =
  smoother_windowSize :: nat
  outlierStdDevThreshold :: real
  window :: "Sample list"

text \<open>
  Modelled from the spec: the DataSmoother, absent from the repository (the design
  document only declares its interface). Section 4.4: the state is the window of accepted
  samples, oldest first, with the window size and the outlier threshold it was created
  with.
\<close>

definition new_DataSmoother :: "nat \<Rightarrow> real \<Rightarrow> DataSmoother" where
  "new_DataSmoother n threshold =
     \<lparr>smoother_windowSize = n, outlierStdDevThreshold = threshold, window = []\<rparr>"

definition reset :: "DataSmoother \<Rightarrow> DataSmoother" where
  "reset s = s\<lparr>window := []\<rparr>"

text \<open>Mean and population standard deviation of the values of a window.\<close>

definition mean :: "real list \<Rightarrow> real" where
  "mean vs = sum_list vs / real (length vs)"

definition stdDev :: "real list \<Rightarrow> real" where
  "stdDev vs = sqrt (sum_list (map (\<lambda>v. (v - mean vs) ^ 2) vs) / real (length vs))"

text \<open>
  Modelled from the spec: \<open>isOutlier\<close>, the z-score test of \<open>addValue\<close> as a read-only
  probe: no outlier with fewer than two samples or with a standard deviation of zero.
\<close>

definition isOutlier :: "real \<Rightarrow> DataSmoother \<Rightarrow> bool" where
  "isOutlier v s =
     (let vals = map sample_value (window s)
      in if length vals < 2 then False
         else
           let \<mu> = mean vals; \<sigma> = stdDev vals
           in if \<sigma> = 0 then False
              else \<bar>v - \<mu>\<bar> > outlierStdDevThreshold s * \<sigma>)"

text \<open>
  Step 5 of \<open>addValue\<close>: append the sample; if the window then exceeds the window size,
  evict the oldest sample.
\<close>

definition acceptSample :: "Sample \<Rightarrow> DataSmoother \<Rightarrow> DataSmoother" where
  "acceptSample sample s =
     (let appended = window s @ [sample]
      in s\<lparr>window := (if length appended > smoother_windowSize s then tl appended else appended)\<rparr>)"

text \<open>
  Modelled from the spec: \<open>addValue\<close>, steps 1 to 5 of section 4.4. An outlier leaves the
  smoother as it was.
\<close>

definition addValue :: "real \<Rightarrow> real \<Rightarrow> DataSmoother \<Rightarrow> DataSmoother" where
  "addValue v timestamp s =
     (let sample = \<lparr>sample_value = v, sample_timestamp = timestamp\<rparr>;
          vals = map sample_value (window s)
      in if length vals < 2 then acceptSample sample s
         else
           let \<mu> = mean vals; \<sigma> = stdDev vals
           in if \<sigma> = 0 then acceptSample sample s
              else if \<bar>v - \<mu>\<bar> > outlierStdDevThreshold s * \<sigma> then s
              else acceptSample sample s)"

definition getSmoothedValue :: "DataSmoother \<Rightarrow> real" where
  "getSmoothedValue s = (if window s = [] then 0 else mean (map sample_value (window s)))"

text \<open>A sequence of \<open>addValue\<close> calls, each a value and its timestamp, oldest first.\<close>

fun addValues :: "(real \<times> real) list \<Rightarrow> DataSmoother \<Rightarrow> DataSmoother" where
  "addValues [] s = s"
| "addValues ((v, t) # rest) s = addValues rest (addValue v t s)"

text \<open>The samples that such a sequence of calls accepts, in the order of the calls.\<close>

fun acceptedSamples :: "(real \<times> real) list \<Rightarrow> DataSmoother \<Rightarrow> Sample list" where
  "acceptedSamples [] s = []"
| "acceptedSamples ((v, t) # rest) s =
     (if isOutlier v s then acceptedSamples rest (addValue v t s)
      else \<lparr>sample_value = v, sample_timestamp = t\<rparr> # acceptedSamples rest (addValue v t s))"

text \<open>The most recent \<open>n\<close> elements of a list.\<close>

definition mostRecent :: "nat \<Rightarrow> 'a list \<Rightarrow> 'a list" where
  "mostRecent n xs = drop (length xs - n) xs"

section \<open>Properties of JavaScript numbers\<close>

text \<open>
  Powers of two, the rounding \<open>fl\<close> (its values lie on the grid of the binary64 values, and
  a value with a significand of at most 53 bits is not changed), and the sign of a
  difference of two binary64 values, which is the sign of the exact difference.
\<close>

lemma pow2_powr: "pow2 e = 2 powr (of_int e)"
  by (simp add: pow2_def powr_int)

lemma pow2_pos [simp]: "0 < pow2 e"
  by (simp add: pow2_powr)

lemma pow2_nonneg [simp]: "0 \<le> pow2 e"
  using pow2_pos [of e] by linarith

lemma pow2_neq0 [simp]: "pow2 e \<noteq> 0"
  using pow2_pos [of e] by linarith

lemma pow2_add: "pow2 (a + b) = pow2 a * pow2 b"
  by (simp add: pow2_powr powr_add)

lemma pow2_diff: "pow2 (a - b) = pow2 a / pow2 b"
  by (simp add: pow2_powr powr_diff)

lemma pow2_mono: "a \<le> b \<Longrightarrow> pow2 a \<le> pow2 b"
  by (simp add: pow2_powr)

lemma pow2_less_iff [simp]: "pow2 a < pow2 b \<longleftrightarrow> a < b"
  by (simp add: pow2_powr)

lemma pow2_le_iff [simp]: "pow2 a \<le> pow2 b \<longleftrightarrow> a \<le> b"
  by (simp add: pow2_powr)

lemma pow2_nat: "0 \<le> e \<Longrightarrow> pow2 e = of_int (2 ^ nat e)"
  by (simp add: pow2_def)

lemma round_even_of_int [simp]: "round_even (of_int k) = k"
  by (simp add: round_even_def)

lemma round_even_ge: "of_int k \<le> m \<Longrightarrow> k \<le> round_even m"
proof -
  assume "of_int k \<le> m"
  then have "k \<le> \<lfloor>m\<rfloor>" by (simp add: le_floor_iff)
  then show ?thesis by (auto simp: round_even_def Let_def)
qed

lemma binade_bounds:
  assumes "0 < a"
  shows "pow2 \<lfloor>log 2 a\<rfloor> \<le> a" and "a < pow2 (\<lfloor>log 2 a\<rfloor> + 1)"
proof -
  have "\<lfloor>log 2 a\<rfloor> = \<lfloor>log 2 a\<rfloor>" ..
  with floor_log_eq_powr_iff [of a 2 "\<lfloor>log 2 a\<rfloor>"] assms
  have "2 powr (of_int \<lfloor>log 2 a\<rfloor>) \<le> a \<and> a < 2 powr (of_int (\<lfloor>log 2 a\<rfloor> + 1))"
    by simp
  then show "pow2 \<lfloor>log 2 a\<rfloor> \<le> a" and "a < pow2 (\<lfloor>log 2 a\<rfloor> + 1)"
    by (simp_all add: pow2_powr)
qed

lemma binade_unique:
  assumes "0 < a" and "pow2 e \<le> a" and "a < pow2 (e + 1)"
  shows "\<lfloor>log 2 a\<rfloor> = e"
  using floor_log_eq_powr_iff [of a 2 e] assms by (simp add: pow2_powr)

lemma round_mag_nonneg: "0 < a \<Longrightarrow> 0 \<le> round_mag a"
proof -
  assume "0 < a"
  then have "0 \<le> a / pow2 (max \<lfloor>log 2 a\<rfloor> (- 1022) - 52)"
    by (simp add: less_imp_le)
  then have "0 \<le> round_even (a / pow2 (max \<lfloor>log 2 a\<rfloor> (- 1022) - 52))"
    using round_even_ge [of 0] by simp
  then show ?thesis by (simp add: round_mag_def Let_def)
qed

lemma round_mag_grid: "\<exists>n::int. round_mag a = of_int n * pow2 (- 1074)"
proof -
  define e where "e = max \<lfloor>log 2 a\<rfloor> (- 1022)"
  have "0 \<le> e + 1022" by (simp add: e_def)
  have "pow2 (e - 52) = pow2 (e + 1022) * pow2 (- 1074)"
    using pow2_add [of "e + 1022" "- 1074"] by simp
  also have "pow2 (e + 1022) = of_int (2 ^ nat (e + 1022))"
    using \<open>0 \<le> e + 1022\<close> by (rule pow2_nat)
  finally have "round_mag a
      = of_int (round_even (a / pow2 (e - 52)) * 2 ^ nat (e + 1022)) * pow2 (- 1074)"
    by (simp add: round_mag_def Let_def e_def)
  then show ?thesis by blast
qed

lemma round_mag_pos:
  assumes "pow2 (- 1074) \<le> a"
  shows "0 < round_mag a"
proof -
  define e where "e = max \<lfloor>log 2 a\<rfloor> (- 1022)"
  have a: "0 < a" using assms pow2_pos [of "- 1074"] by linarith
  have "pow2 (e - 52) \<le> a"
  proof (cases "\<lfloor>log 2 a\<rfloor> \<le> - 1022")
    case True
    then have "e = - 1022" by (simp add: e_def)
    with assms show ?thesis by simp
  next
    case False
    then have "e = \<lfloor>log 2 a\<rfloor>" by (simp add: e_def)
    then have "pow2 e \<le> a" using binade_bounds(1) [OF a] by simp
    moreover have "pow2 (e - 52) \<le> pow2 e" by (rule pow2_mono) simp
    ultimately show ?thesis by linarith
  qed
  then have "of_int 1 \<le> a / pow2 (e - 52)"
    by (simp add: le_divide_eq)
  then have "1 \<le> round_even (a / pow2 (e - 52))"
    by (rule round_even_ge)
  then have "0 < of_int (round_even (a / pow2 (e - 52))) * pow2 (e - 52)"
    by simp
  then show ?thesis by (simp add: round_mag_def Let_def e_def)
qed

lemma round_mag_overflow:
  assumes "pow2 1024 \<le> a"
  shows "pow2 1024 \<le> round_mag a"
proof -
  define e where "e = \<lfloor>log 2 a\<rfloor>"
  have a: "0 < a" using assms pow2_pos [of 1024] by linarith
  have "1024 \<le> e"
  proof (rule ccontr)
    assume "\<not> 1024 \<le> e"
    then have "e + 1 \<le> 1024" by simp
    then have "pow2 (e + 1) \<le> pow2 1024" by (rule pow2_mono)
    with binade_bounds(2) [OF a] assms show False unfolding e_def by linarith
  qed
  then have m: "max e (- 1022) = e" by simp
  have split: "pow2 e = of_int (2 ^ 52) * pow2 (e - 52)"
    using pow2_add [of 52 "e - 52"] pow2_nat [of 52] by simp
  have "pow2 e \<le> a"
    using binade_bounds(1) [OF a] by (simp add: e_def)
  then have "of_int (2 ^ 52) \<le> a / pow2 (e - 52)"
    unfolding split by (simp add: le_divide_eq)
  then have "2 ^ 52 \<le> round_even (a / pow2 (e - 52))"
    by (rule round_even_ge)
  then have "(of_int (2 ^ 52) :: real) \<le> of_int (round_even (a / pow2 (e - 52)))"
    by (simp only: of_int_le_iff)
  then have "of_int (2 ^ 52) * pow2 (e - 52)
      \<le> of_int (round_even (a / pow2 (e - 52))) * pow2 (e - 52)"
    by (rule mult_right_mono) simp
  then have "pow2 e \<le> round_mag a"
    unfolding split [symmetric] by (simp add: round_mag_def Let_def e_def [symmetric] m)
  moreover have "pow2 1024 \<le> pow2 e" using \<open>1024 \<le> e\<close> by (rule pow2_mono)
  ultimately show ?thesis by linarith
qed

lemma round_mag_exact:
  assumes "a = of_int k * pow2 j" and "0 < k" and "k < 2 ^ 53" and "- 1074 \<le> j"
  shows "round_mag a = a"
proof -
  define e where "e = max \<lfloor>log 2 a\<rfloor> (- 1022)"
  have a: "0 < a" using assms(1,2) by simp
  have "a < of_int (2 ^ 53) * pow2 j"
    unfolding assms(1) using assms(3) by (simp del: of_int_power)
  also have "\<dots> = pow2 (53 + j)"
    using pow2_add [of 53 j] by (simp add: pow2_def)
  finally have lt: "a < pow2 (53 + j)" .
  have "\<lfloor>log 2 a\<rfloor> \<le> 52 + j"
  proof (rule ccontr)
    assume "\<not> \<lfloor>log 2 a\<rfloor> \<le> 52 + j"
    then have "53 + j \<le> \<lfloor>log 2 a\<rfloor>" by simp
    then have "pow2 (53 + j) \<le> pow2 \<lfloor>log 2 a\<rfloor>" by (rule pow2_mono)
    with binade_bounds(1) [OF a] lt show False by linarith
  qed
  with assms(4) have "e - 52 \<le> j" by (simp add: e_def)
  then have n: "0 \<le> j - (e - 52)" by simp
  have "pow2 j = pow2 (j - (e - 52)) * pow2 (e - 52)"
    using pow2_add [of "j - (e - 52)" "e - 52"] by simp
  also have "pow2 (j - (e - 52)) = of_int (2 ^ nat (j - (e - 52)))"
    using n by (rule pow2_nat)
  finally have q: "a / pow2 (e - 52) = of_int (k * 2 ^ nat (j - (e - 52)))"
    unfolding assms(1) by simp
  have "of_int (round_even (a / pow2 (e - 52))) * pow2 (e - 52)
      = a / pow2 (e - 52) * pow2 (e - 52)"
    unfolding q round_even_of_int ..
  also have "\<dots> = a" by simp
  finally show ?thesis by (simp add: round_mag_def Let_def e_def)
qed


lemma p53_lt_p1024: "of_int (2 ^ 53) < pow2 1024"
proof -
  have "pow2 53 \<le> pow2 1023" by (rule pow2_mono) simp
  moreover have "pow2 1023 < pow2 1024"
    using pow2_add [of 1023 1] by (simp add: pow2_def)
  moreover have "pow2 53 = of_int (2 ^ 53)" by (simp add: pow2_def)
  ultimately show ?thesis by linarith
qed

lemma fl_not_NaN [simp]: "fl r \<noteq> NaN"
  by (simp add: fl_def Let_def js_inf_def js_zero_def)

lemma fl_0 [simp]: "fl 0 = Num 0"
  by (simp add: fl_def)

lemma fl_exact_pos:
  assumes "a = of_int k * pow2 j" and "0 < k" and "k < 2 ^ 53" and "- 1074 \<le> j"
    and "a < pow2 1024"
  shows "fl a = Num a"
proof -
  have "0 < a" using assms(1,2) by simp
  moreover have "round_mag a = a" using assms(1-4) by (rule round_mag_exact)
  ultimately show ?thesis using assms(5) by (simp add: fl_def)
qed

lemma fl_exact_neg:
  assumes "a = of_int k * pow2 j" and "0 < k" and "k < 2 ^ 53" and "- 1074 \<le> j"
    and "a < pow2 1024"
  shows "fl (- a) = Num (- a)"
proof -
  have "0 < a" using assms(1,2) by simp
  moreover have "round_mag a = a" using assms(1-4) by (rule round_mag_exact)
  ultimately show ?thesis using assms(5) by (simp add: fl_def)
qed

lemma fl_int:
  assumes "\<bar>k\<bar> < 2 ^ 53"
  shows "fl (of_int k) = Num (of_int k)"
proof (cases "k = 0")
  case True
  then show ?thesis by simp
next
  case False
  have b: "of_int \<bar>k\<bar> < pow2 1024"
  proof -
    from assms have "(of_int \<bar>k\<bar> :: real) < of_int (2 ^ 53)" by (simp only: of_int_less_iff)
    with p53_lt_p1024 show ?thesis by linarith
  qed
  have e: "(of_int \<bar>k\<bar> :: real) = of_int \<bar>k\<bar> * pow2 0" by (simp add: pow2_def)
  show ?thesis
  proof (cases "0 < k")
    case True
    with fl_exact_pos [OF e _ _ _ b] assms show ?thesis by simp
  next
    case False
    with \<open>k \<noteq> 0\<close> have "k < 0" by simp
    with fl_exact_neg [OF e _ _ _ b] assms show ?thesis by simp
  qed
qed

lemma fl_numeral [simp]:
  "numeral n < (9007199254740992 :: int) \<Longrightarrow> fl (numeral n) = Num (numeral n)"
  using fl_int [of "numeral n"] by simp

lemma fl_neg_numeral [simp]:
  "numeral n < (9007199254740992 :: int) \<Longrightarrow> fl (- numeral n) = Num (- numeral n)"
  using fl_int [of "- numeral n"] by simp

lemma fl_1 [simp]: "fl 1 = Num 1"
  using fl_int [of 1] by simp

lemma fl_overflow:
  assumes "pow2 1024 \<le> r"
  shows "fl r = PosInf"
proof -
  have "0 < r" using assms pow2_pos [of 1024] by linarith
  moreover from assms have "pow2 1024 \<le> round_mag \<bar>r\<bar>"
    using round_mag_overflow [of "\<bar>r\<bar>"] by simp
  ultimately show ?thesis by (simp add: fl_def js_inf_def)
qed

lemma js_grid_fl [simp]: "js_grid (fl r)"
proof -
  have g: "\<exists>m::int. round_mag a = of_int m * pow2 (- 1074)" for a
    by (rule round_mag_grid)
  have h: "\<exists>m::int. - round_mag a = of_int m * pow2 (- 1074)" for a
  proof -
    obtain n :: int where "round_mag a = of_int n * pow2 (- 1074)"
      using round_mag_grid by blast
    then have "- round_mag a = of_int (- n) * pow2 (- 1074)" by simp
    then show ?thesis by blast
  qed
  have z: "\<exists>m::int. (0::real) = of_int m * pow2 (- 1074)"
    by (rule exI [of _ 0]) simp
  show ?thesis
    by (simp add: fl_def Let_def js_grid_def js_inf_def js_zero_def g h z)
qed

lemma fl_pos:
  assumes "pow2 (- 1074) \<le> r"
  shows "fl r = PosInf \<or> (\<exists>v>0. fl r = Num v)"
proof -
  have "0 < r" using assms pow2_pos [of "- 1074"] by linarith
  moreover from assms have "0 < round_mag \<bar>r\<bar>"
    using round_mag_pos [of "\<bar>r\<bar>"] by simp
  ultimately show ?thesis by (simp add: fl_def Let_def js_inf_def)
qed

lemma fl_neg:
  assumes "r \<le> - pow2 (- 1074)"
  shows "fl r = NegInf \<or> (\<exists>v<0. fl r = Num v)"
proof -
  have "r < 0" using assms pow2_pos [of "- 1074"] by linarith
  moreover from assms have "0 < round_mag \<bar>r\<bar>"
    using round_mag_pos [of "\<bar>r\<bar>"] by simp
  ultimately show ?thesis by (simp add: fl_def Let_def js_inf_def)
qed

lemma js_grid_special [simp]:
  "js_grid NegZero" "js_grid NaN" "js_grid PosInf" "js_grid NegInf" "js_grid (Num 0)"
  by (simp_all add: js_grid_def)

lemma js_grid_add [simp]: "js_grid (js_add a b)"
proof -
  have z: "js_grid (js_zero s)" for s
    by (simp add: js_zero_def)
  show ?thesis
    by (cases a; cases b) (simp_all add: js_add_def Let_def z)
qed

lemma grid_diff:
  assumes "js_grid (Num u)" and "js_grid (Num v)" and "u \<noteq> v"
  shows "pow2 (- 1074) \<le> \<bar>u - v\<bar>"
proof -
  from assms(1,2) obtain n m :: int
    where u: "u = of_int n * pow2 (- 1074)" and v: "v = of_int m * pow2 (- 1074)"
    by (auto simp: js_grid_def)
  with assms(3) have "n \<noteq> m" by auto
  then have "1 \<le> \<bar>n - m\<bar>" by simp
  then have "(1::real) \<le> of_int \<bar>n - m\<bar>" by (simp only: of_int_1_le_iff)
  then have "1 * pow2 (- 1074) \<le> of_int \<bar>n - m\<bar> * pow2 (- 1074)"
    by (rule mult_right_mono) simp
  also have "\<dots> = \<bar>u - v\<bar>"
    unfolding u v by (simp add: abs_mult left_diff_distrib [symmetric])
  finally show ?thesis by simp
qed


lemma grid_val:
  assumes "js_grid a" and "isFinite a"
  shows "\<exists>n::int. js_val a = of_int n * pow2 (- 1074)"
proof (cases a)
  case (Num v)
  with assms(1) show ?thesis by (simp add: js_grid_def)
next
  case NegZero
  show ?thesis unfolding NegZero by (rule exI [of _ 0]) simp
qed (use assms(2) in simp_all)

lemma grid_val_diff:
  assumes "js_grid a" and "isFinite a" and "js_grid b" and "isFinite b"
    and "js_val a \<noteq> js_val b"
  shows "pow2 (- 1074) \<le> \<bar>js_val b - js_val a\<bar>"
proof -
  from grid_val [OF assms(1,2)] grid_val [OF assms(3,4)]
  have "js_grid (Num (js_val a))" and "js_grid (Num (js_val b))"
    by (simp_all add: js_grid_def)
  from grid_diff [OF this(2) this(1)] assms(5) show ?thesis by simp
qed

lemma js_negate_finite [simp]: "isFinite (js_negate a) = isFinite a"
  by (cases a) simp_all

lemma js_val_negate [simp]: "js_val (js_negate a) = - js_val a"
  by (cases a) simp_all

lemma js_gt_zero_fl:
  assumes "r \<noteq> 0" and "pow2 (- 1074) \<le> \<bar>r\<bar>"
  shows "js_gt (fl r) (Num 0) \<longleftrightarrow> 0 < r"
proof (cases "0 < r")
  case True
  with assms(2) have "pow2 (- 1074) \<le> r" by simp
  from fl_pos [OF this] True show ?thesis
    by (auto simp: js_gt_def js_lt_def)
next
  case False
  with assms have "r \<le> - pow2 (- 1074)" by simp
  from fl_neg [OF this] False show ?thesis
    by (auto simp: js_gt_def js_lt_def)
qed

lemma js_sub_sign_finite:
  assumes "js_grid a" and "isFinite a" and "js_grid b" and "isFinite b"
  shows "js_gt (js_sub b a) (Num 0) \<longleftrightarrow> js_val a < js_val b"
proof (cases "js_val b - js_val a = 0")
  case True
  with assms(2,4) show ?thesis
    by (cases a; cases b) (simp_all add: js_sub_def js_add_def js_gt_def js_lt_def js_zero_def)
next
  case False
  then have ne: "js_val a \<noteq> js_val b" by simp
  have fin: "a \<noteq> NaN" "b \<noteq> NaN" "js_negate a \<noteq> NaN"
    using assms(2,4) by (cases a; cases b; simp)+
  have "js_sub b a = fl (js_val b - js_val a)"
    using False assms(2,4) fin by (simp add: js_sub_def js_add_def)
  with js_gt_zero_fl [OF False grid_val_diff [OF assms ne]] show ?thesis by simp
qed

lemma js_gt_finite:
  "isFinite a \<Longrightarrow> isFinite b \<Longrightarrow> js_gt b a \<longleftrightarrow> js_val a < js_val b"
  by (cases a; cases b) (simp_all add: js_gt_def js_lt_def)

lemma js_sub_sign:
  assumes "js_grid a" and "js_grid b" and "a \<noteq> NaN" and "b \<noteq> NaN"
  shows "js_gt (js_sub b a) (Num 0) \<longleftrightarrow> js_gt b a"
proof (cases "isFinite a \<and> isFinite b")
  case True
  with js_sub_sign_finite [OF assms(1) _ assms(2)] js_gt_finite show ?thesis by simp
next
  case False
  with assms(3,4) show ?thesis
    by (cases a; cases b) (simp_all add: js_sub_def js_add_def js_gt_def js_lt_def)
qed

lemma not_js_gt_iff_le:
  "a \<noteq> NaN \<Longrightarrow> b \<noteq> NaN \<Longrightarrow> \<not> js_gt b a \<longleftrightarrow> js_le b a"
  by (cases a; cases b) (auto simp: js_gt_def js_le_def js_lt_def js_eq_def)

lemma js_le_trans:
  "js_le a b \<Longrightarrow> js_le b c \<Longrightarrow> js_le a c"
  by (cases a; cases b; cases c) (auto simp: js_le_def js_lt_def js_eq_def)

lemma js_le_refl: "a \<noteq> NaN \<Longrightarrow> js_le a a"
  by (cases a) (auto simp: js_le_def js_lt_def js_eq_def)


lemma round_even_le: "m \<le> of_int k \<Longrightarrow> round_even m \<le> k"
proof -
  assume m: "m \<le> of_int k"
  then have f: "\<lfloor>m\<rfloor> \<le> k" by (simp add: floor_le_iff)
  show ?thesis
  proof (cases "\<lfloor>m\<rfloor> = k")
    case True
    with m have "m = of_int \<lfloor>m\<rfloor>" using of_int_floor_le [of m] by linarith
    then have "round_even m = \<lfloor>m\<rfloor>" by (metis round_even_of_int)
    with True show ?thesis by simp
  next
    case False
    with f have "\<lfloor>m\<rfloor> + 1 \<le> k" by simp
    then show ?thesis by (auto simp: round_even_def Let_def)
  qed
qed

lemma fl_eval_pos:
  assumes "pow2 e \<le> a" and "a < pow2 (e + 1)" and "- 1022 \<le> e" and "e \<le> 1022"
    and "round_even (a / pow2 (e - 52)) = n"
  shows "fl a = Num (of_int n * pow2 (e - 52))"
proof -
  have a: "0 < a" using assms(1) pow2_pos [of e] by linarith
  have "\<lfloor>log 2 a\<rfloor> = e" using a assms(1,2) by (rule binade_unique)
  with assms(3) have m: "max \<lfloor>log 2 a\<rfloor> (- 1022) = e" by simp
  have r: "round_mag a = of_int n * pow2 (e - 52)"
    by (simp add: round_mag_def Let_def m assms(5))
  have p52: "pow2 52 = of_int (2 ^ 52)" and p53: "pow2 53 = of_int (2 ^ 53)"
    by (simp_all add: pow2_def)
  have lo: "pow2 e = of_int (2 ^ 52) * pow2 (e - 52)"
    using pow2_add [of 52 "e - 52"] unfolding p52 by simp
  have hi: "pow2 (e + 1) = of_int (2 ^ 53) * pow2 (e - 52)"
    using pow2_add [of 53 "e - 52"] unfolding p53 by (simp add: add.commute)
  from assms(1) have "of_int (2 ^ 52) \<le> a / pow2 (e - 52)"
    unfolding lo by (simp add: le_divide_eq)
  then have "2 ^ 52 \<le> n" unfolding assms(5) [symmetric] by (rule round_even_ge)
  then have npos: "0 < n" by simp
  from assms(2) have "a / pow2 (e - 52) \<le> of_int (2 ^ 53)"
    unfolding hi by (simp add: divide_le_eq less_imp_le)
  then have "n \<le> 2 ^ 53" unfolding assms(5) [symmetric] by (rule round_even_le)
  then have "(of_int n :: real) \<le> of_int (2 ^ 53)" by (simp only: of_int_le_iff)
  then have "of_int n * pow2 (e - 52) \<le> of_int (2 ^ 53) * pow2 (e - 52)"
    by (rule mult_right_mono) simp
  also have "\<dots> = pow2 (e + 1)" by (rule hi [symmetric])
  also have "\<dots> < pow2 1024" using assms(4) by simp
  finally have "round_mag a < pow2 1024" unfolding r .
  moreover have "0 < round_mag a" unfolding r using npos by simp
  ultimately show ?thesis using a npos by (simp add: fl_def r Let_def)
qed

lemma fl_7_10: "fl (7 / 10) = Num (6305039478318694 / 9007199254740992)"
proof -
  have "round_even ((7 / 10) / pow2 (- 1 - 52)) = 6305039478318694"
    by (simp add: pow2_def round_even_def)
  from fl_eval_pos [of "- 1" "7 / 10", OF _ _ _ _ this] show ?thesis
    by (simp add: pow2_def)
qed

lemma fl_3_10: "fl (3 / 10) = Num (5404319552844595 / 18014398509481984)"
proof -
  have "round_even ((3 / 10) / pow2 (- 2 - 52)) = 5404319552844595"
    by (simp add: pow2_def round_even_def)
  from fl_eval_pos [of "- 2" "3 / 10", OF _ _ _ _ this] show ?thesis
    by (simp add: pow2_def)
qed


lemma js_add_Num: "js_add (Num a) (Num b) = (if a + b = 0 then Num 0 else fl (a + b))"
  by (auto simp: js_add_def Let_def js_zero_def)

lemma js_sub_Num: "js_sub (Num a) (Num b) = (if a - b = 0 then Num 0 else fl (a - b))"
  by (auto simp: js_sub_def js_add_def Let_def js_zero_def)

lemma js_mul_Num:
  "js_mul (Num a) (Num b) = (if a * b = 0 then js_zero ((a < 0) \<noteq> (b < 0)) else fl (a * b))"
  by (simp add: js_mul_def Let_def)

lemma js_div_Num:
  "js_div (Num a) (Num b) =
     (if b = 0 then (if a = 0 then NaN else js_inf (a < 0))
      else if a = 0 then js_zero (b < 0) else fl (a / b))"
  by (simp add: js_div_def is_zero_def)

lemma js_mul_Inf_Num:
  "0 < b \<Longrightarrow> js_mul PosInf (Num b) = PosInf"
  "0 < b \<Longrightarrow> js_mul NegInf (Num b) = NegInf"
  by (simp_all add: js_mul_def is_zero_def js_inf_def)

lemma js_special_ops:
  "js_mul PosInf PosInf = PosInf"
  "js_add PosInf (Num b) = PosInf"
  "js_add PosInf NegInf = NaN"
  "js_sub (Num a) PosInf = NegInf"
  "js_sub NaN NaN = NaN"
  by (simp_all add: js_mul_def js_add_def js_sub_def is_zero_def js_inf_def)


lemma fl_exact:
  assumes "a = of_int k * pow2 j" and "0 < k" and "k < 2 ^ 53" and "- 1074 \<le> j" and "j \<le> 971"
  shows "fl a = Num a"
proof -
  have p53: "pow2 53 = of_int (2 ^ 53)" by (simp add: pow2_def)
  from assms(3) have "(of_int k :: real) < of_int (2 ^ 53)" by (simp only: of_int_less_iff)
  then have "of_int k * pow2 j < of_int (2 ^ 53) * pow2 j"
    by (rule mult_strict_right_mono) simp
  also have "\<dots> = pow2 (53 + j)" using pow2_add [of 53 j] unfolding p53 by simp
  also have "\<dots> \<le> pow2 1024" using assms(5) by simp
  finally have "a < pow2 1024" unfolding assms(1) .
  with assms(1-4) show ?thesis by (rule fl_exact_pos)
qed

lemma round_mag_le:
  assumes "0 < a" and "a \<le> pow2 k" and "- 1022 \<le> k"
  shows "round_mag a \<le> pow2 k"
proof -
  define e where "e = max \<lfloor>log 2 a\<rfloor> (- 1022)"
  have "\<lfloor>log 2 a\<rfloor> \<le> k"
  proof (rule ccontr)
    assume "\<not> \<lfloor>log 2 a\<rfloor> \<le> k"
    then have "k + 1 \<le> \<lfloor>log 2 a\<rfloor>" by simp
    then have "pow2 (k + 1) \<le> pow2 \<lfloor>log 2 a\<rfloor>" by (rule pow2_mono)
    also have "\<dots> \<le> a" using assms(1) by (rule binade_bounds)
    finally have "pow2 (k + 1) \<le> pow2 k" using assms(2) by linarith
    then show False by simp
  qed
  with assms(3) have ek: "e \<le> k" by (simp add: e_def)
  then have n: "0 \<le> k - e + 52" by simp
  have "pow2 k = pow2 (k - e + 52) * pow2 (e - 52)"
    using pow2_add [of "k - e + 52" "e - 52"] by simp
  also have "pow2 (k - e + 52) = of_int (2 ^ nat (k - e + 52))"
    using n by (rule pow2_nat)
  finally have pk: "pow2 k = of_int (2 ^ nat (k - e + 52)) * pow2 (e - 52)" .
  have "a / pow2 (e - 52) \<le> pow2 k / pow2 (e - 52)"
    using assms(2) by (simp add: divide_right_mono)
  also have "\<dots> = of_int (2 ^ nat (k - e + 52))"
    unfolding pk by simp
  finally have "round_even (a / pow2 (e - 52)) \<le> 2 ^ nat (k - e + 52)"
    by (rule round_even_le)
  then have "(of_int (round_even (a / pow2 (e - 52))) :: real) \<le> of_int (2 ^ nat (k - e + 52))"
    by (simp only: of_int_le_iff)
  then have "of_int (round_even (a / pow2 (e - 52))) * pow2 (e - 52)
      \<le> of_int (2 ^ nat (k - e + 52)) * pow2 (e - 52)"
    by (rule mult_right_mono) simp
  then show ?thesis
    unfolding pk [symmetric] by (simp add: round_mag_def Let_def e_def)
qed

lemma fl_bounded:
  assumes "\<bar>a\<bar> \<le> pow2 k" and "- 1022 \<le> k" and "k \<le> 1023"
  shows "isFinite (fl a) \<and> \<bar>js_val (fl a)\<bar> \<le> pow2 k"
proof (cases "a = 0")
  case True
  then show ?thesis by (simp add: fl_def)
next
  case False
  then have p: "0 < \<bar>a\<bar>" by simp
  from p assms(1,2) have m: "round_mag \<bar>a\<bar> \<le> pow2 k" by (rule round_mag_le)
  have "pow2 k < pow2 1024" using assms(3) by simp
  with m have lt: "\<not> pow2 1024 \<le> round_mag \<bar>a\<bar>" by linarith
  have nn: "0 \<le> round_mag \<bar>a\<bar>" using p by (rule round_mag_nonneg)
  show ?thesis
  proof (cases "a < 0")
    case True
    then have "\<bar>a\<bar> = - a" by simp
    with False lt m nn True show ?thesis by (simp add: fl_def Let_def js_zero_def)
  next
    case False
    then have "\<bar>a\<bar> = a" by simp
    with \<open>a \<noteq> 0\<close> lt m nn False show ?thesis by (simp add: fl_def Let_def js_zero_def)
  qed
qed

lemma round_mag_ge:
  assumes "pow2 k \<le> a" and "- 1022 \<le> k"
  shows "pow2 k \<le> round_mag a"
proof -
  have a: "0 < a" using assms(1) pow2_pos [of k] by linarith
  have "pow2 k < pow2 (\<lfloor>log 2 a\<rfloor> + 1)"
    using assms(1) binade_bounds(2) [OF a] by linarith
  then have ke: "k \<le> \<lfloor>log 2 a\<rfloor>" by simp
  with assms(2) have e: "max \<lfloor>log 2 a\<rfloor> (- 1022) = \<lfloor>log 2 a\<rfloor>" by simp
  define e where "e = \<lfloor>log 2 a\<rfloor>"
  have pe: "pow2 e = of_int (2 ^ 52) * pow2 (e - 52)"
    using pow2_add [of 52 "e - 52"] by (simp add: pow2_def)
  have "pow2 e \<le> a" unfolding e_def using a by (rule binade_bounds)
  then have "pow2 e / pow2 (e - 52) \<le> a / pow2 (e - 52)"
    by (simp add: divide_right_mono)
  then have "of_int (2 ^ 52) \<le> a / pow2 (e - 52)"
    unfolding pe by simp
  then have "2 ^ 52 \<le> round_even (a / pow2 (e - 52))"
    by (rule round_even_ge)
  then have "(of_int (2 ^ 52) :: real) \<le> of_int (round_even (a / pow2 (e - 52)))"
    by (simp only: of_int_le_iff)
  then have "of_int (2 ^ 52) * pow2 (e - 52)
      \<le> of_int (round_even (a / pow2 (e - 52))) * pow2 (e - 52)"
    by (rule mult_right_mono) simp
  then have "pow2 e \<le> round_mag a"
    unfolding pe [symmetric] by (simp add: round_mag_def Let_def e e_def)
  moreover have "pow2 k \<le> pow2 e" using ke by (simp add: e_def)
  ultimately show ?thesis by linarith
qed

lemma fl_ge:
  assumes "pow2 k \<le> \<bar>a\<bar>" and "- 1022 \<le> k"
  shows "fl a = PosInf \<or> fl a = NegInf \<or> (\<exists>v. fl a = Num v \<and> pow2 k \<le> \<bar>v\<bar>)"
proof -
  from assms have m: "pow2 k \<le> round_mag \<bar>a\<bar>" by (rule round_mag_ge)
  then have p: "0 < round_mag \<bar>a\<bar>" using pow2_pos [of k] by linarith
  have "0 < \<bar>a\<bar>" using assms(1) pow2_pos [of k] by linarith
  then have "a \<noteq> 0" by simp
  show ?thesis
  proof (cases "a < 0")
    case True
    then have "\<bar>a\<bar> = - a" by simp
    with \<open>a \<noteq> 0\<close> m p True show ?thesis by (simp add: fl_def Let_def js_inf_def)
  next
    case False
    then have "\<bar>a\<bar> = a" by simp
    with \<open>a \<noteq> 0\<close> m p False show ?thesis by (simp add: fl_def Let_def js_inf_def)
  qed
qed

section \<open>Properties of FrameProcessor\<close>

lemma recordFrameTimestamp_bound:
  "length (frameTimestamps fp) \<le> FPS_SAMPLE_SIZE \<Longrightarrow>
   length (frameTimestamps (recordFrameTimestamp now fp)) \<le> FPS_SAMPLE_SIZE"
  by (simp add: recordFrameTimestamp_def Let_def)

lemma captureFrame_bound:
  "captureFrame v now fp = Inr (img, fp') \<Longrightarrow>
   length (frameTimestamps fp) \<le> FPS_SAMPLE_SIZE \<Longrightarrow>
   length (frameTimestamps fp') \<le> FPS_SAMPLE_SIZE"
  by (auto simp: captureFrame_def recordFrameTimestamp_def Let_def split: if_splits)

lemma fp_step_bound:
  "length (frameTimestamps fp) \<le> FPS_SAMPLE_SIZE \<Longrightarrow>
   length (frameTimestamps (fp_step fp c)) \<le> FPS_SAMPLE_SIZE"
  by (cases c)
    (auto simp: resetFPS_def dispose_FrameProcessor_def
      split: sum.splits dest: captureFrame_bound)

lemma foldl_fp_step_bound:
  "length (frameTimestamps fp) \<le> FPS_SAMPLE_SIZE \<Longrightarrow>
   length (frameTimestamps (foldl fp_step fp calls)) \<le> FPS_SAMPLE_SIZE"
  by (induction calls arbitrary: fp) (simp_all add: fp_step_bound)

lemma js_sub_Num_not_NaN: "js_sub (Num a) (Num b) \<noteq> NaN"
  by (simp add: js_sub_def js_add_def Let_def js_zero_def)

lemma js_div_not_NaN:
  assumes "b \<noteq> NaN" and "\<not> js_eq b (Num 0)" and "c \<noteq> 0"
  shows "js_div (Num c) b \<noteq> NaN"
  using assms
  by (cases b) (simp_all add: js_div_def js_eq_def is_zero_def js_inf_def js_zero_def)

lemma js_mul_1000_not_NaN:
  assumes "q \<noteq> NaN"
  shows "js_mul q (Num 1000) \<noteq> NaN"
  using assms
  by (cases q) (simp_all add: js_mul_def Let_def is_zero_def js_inf_def js_zero_def)

lemma Math_round_not_NaN: "q \<noteq> NaN \<Longrightarrow> Math_round q \<noteq> NaN"
  by (cases q) (simp_all add: Let_def js_zero_def)

lemma getFPS_value:
  "getFPS fp =
     (let ts = frameTimestamps fp;
          timeSpan = js_sub (Num (last ts)) (Num (hd ts))
      in if length ts < 2 \<or> js_eq timeSpan (Num 0) then Num 0
         else Math_round (js_mul (js_div (Num (real (length ts - 1))) timeSpan) (Num 1000)))"
proof (cases "length (frameTimestamps fp) < 2")
  case True
  then show ?thesis by (simp add: getFPS_def Let_def)
next
  case False
  then have ne: "frameTimestamps fp \<noteq> []" by auto
  then have "frameTimestamps fp ! (length (frameTimestamps fp) - 1) = last (frameTimestamps fp)"
    and "frameTimestamps fp ! 0 = hd (frameTimestamps fp)"
    by (simp_all add: last_conv_nth hd_conv_nth)
  with False show ?thesis by (simp add: getFPS_def Let_def)
qed

lemma getFPS_not_NaN: "getFPS fp \<noteq> NaN"
proof -
  let ?ts = "frameTimestamps fp"
  let ?span = "js_sub (Num (last ?ts)) (Num (hd ?ts))"
  show ?thesis
  proof (cases "length ?ts < 2 \<or> js_eq ?span (Num 0)")
    case True
    then show ?thesis by (auto simp: getFPS_value Let_def)
  next
    case False
    then have c: "real (length ?ts - 1) \<noteq> 0" by simp
    from False have z: "\<not> js_eq ?span (Num 0)" by simp
    have "js_div (Num (real (length ?ts - 1))) ?span \<noteq> NaN"
      using js_sub_Num_not_NaN z c by (rule js_div_not_NaN)
    then have "Math_round (js_mul (js_div (Num (real (length ?ts - 1))) ?span) (Num 1000)) \<noteq> NaN"
      by (intro Math_round_not_NaN js_mul_1000_not_NaN)
    with False show ?thesis by (simp add: getFPS_value Let_def)
  qed
qed

lemma Math_round_finite: "isFinite q \<Longrightarrow> isFinite (Math_round q)"
  by (cases q) (simp_all add: Let_def js_zero_def)

lemma js_mul_1000_finite:
  assumes "isFinite q" and "\<bar>js_val q\<bar> \<le> pow2 1005"
  shows "isFinite (js_mul q (Num 1000))"
proof -
  have "\<bar>js_val q * 1000\<bar> \<le> pow2 1005 * 1024"
    using assms(2) by (simp add: abs_mult mult_mono)
  also have "\<dots> = pow2 1015" using pow2_add [of 1005 10] by (simp add: pow2_def)
  finally have "isFinite (fl (js_val q * 1000))"
    using fl_bounded [of "js_val q * 1000" 1015] by simp
  with assms(1) show ?thesis
    by (cases q) (simp_all add: js_mul_def Let_def js_zero_def)
qed

lemma js_div_count_finite:
  assumes "c \<le> 32" and "0 \<le> c" and "pow2 (- 1000) \<le> \<bar>v\<bar>"
  shows "isFinite (js_div (Num c) (Num v)) \<and> \<bar>js_val (js_div (Num c) (Num v))\<bar> \<le> pow2 1005"
proof -
  have "0 < \<bar>v\<bar>" using assms(3) pow2_pos [of "- 1000"] by linarith
  then have v: "v \<noteq> 0" by simp
  have "\<bar>c / v\<bar> = c / \<bar>v\<bar>" using assms(2) by simp
  also have "\<dots> \<le> 32 / \<bar>v\<bar>" using assms(1) v by (simp add: divide_right_mono)
  also have "\<dots> \<le> 32 / pow2 (- 1000)"
    using assms(3) by (intro frac_le) simp_all
  also have "\<dots> = pow2 1005" using pow2_diff [of 5 "- 1000"] by (simp add: pow2_def)
  finally have "\<bar>c / v\<bar> \<le> pow2 1005" .
  then have "isFinite (fl (c / v)) \<and> \<bar>js_val (fl (c / v))\<bar> \<le> pow2 1005"
    by (rule fl_bounded) simp_all
  with v show ?thesis
    by (simp add: js_div_Num js_zero_def)
qed

lemma getFPS_finite:
  assumes "length (frameTimestamps fp) \<le> 30"
    and "js_sub (Num (last (frameTimestamps fp))) (Num (hd (frameTimestamps fp))) = Num v"
    and "pow2 (- 1000) \<le> \<bar>v\<bar>"
  shows "isFinite (getFPS fp)"
proof -
  let ?ts = "frameTimestamps fp"
  let ?c = "real (length ?ts - 1)"
  have "?c \<le> 32" and "0 \<le> ?c" using assms(1) by simp_all
  from js_div_count_finite [OF this assms(3)]
  have "isFinite (js_mul (js_div (Num ?c) (Num v)) (Num 1000))"
    by (intro js_mul_1000_finite) simp_all
  then have fin: "isFinite (Math_round (js_mul (js_div (Num ?c) (Num v)) (Num 1000)))"
    by (rule Math_round_finite)
  show ?thesis
  proof (cases "length ?ts < 2 \<or> js_eq (Num v) (Num 0)")
    case True
    then show ?thesis by (auto simp: getFPS_value Let_def assms(2))
  next
    case False
    with fin show ?thesis by (simp add: getFPS_value Let_def assms(2))
  qed
qed

lemma getFPS_finite_inf:
  assumes "js_sub (Num (last (frameTimestamps fp))) (Num (hd (frameTimestamps fp))) = PosInf
    \<or> js_sub (Num (last (frameTimestamps fp))) (Num (hd (frameTimestamps fp))) = NegInf"
  shows "isFinite (getFPS fp)"
  using assms
  by (auto simp: getFPS_value Let_def js_div_def js_mul_def js_zero_def is_zero_def js_eq_def)

lemma getFPS_finite_span:
  assumes "length (frameTimestamps fp) \<le> 30"
    and "pow2 (- 1000) \<le> \<bar>last (frameTimestamps fp) - hd (frameTimestamps fp)\<bar>"
  shows "isFinite (getFPS fp)"
proof -
  let ?d = "last (frameTimestamps fp) - hd (frameTimestamps fp)"
  have "0 < \<bar>?d\<bar>" using assms(2) pow2_pos [of "- 1000"] by linarith
  then have "?d \<noteq> 0" by simp
  then have s: "js_sub (Num (last (frameTimestamps fp))) (Num (hd (frameTimestamps fp))) = fl ?d"
    by (simp add: js_sub_Num)
  from fl_ge [OF assms(2)]
  consider "fl ?d = PosInf \<or> fl ?d = NegInf" | v where "fl ?d = Num v" "pow2 (- 1000) \<le> \<bar>v\<bar>"
    by auto
  then show ?thesis
  proof cases
    case 1
    with s show ?thesis by (intro getFPS_finite_inf) simp
  next
    case 2
    with s assms(1) show ?thesis by (intro getFPS_finite [of fp v]) simp_all
  qed
qed

text \<open>
  C9, as stated, fails. With the two timestamps \<open>0\<close> and \<open>2^-1020\<close> the time span is not zero,
  the quotient \<open>1 / 2^-1020 = 2^1020\<close> is finite and its product with 1000 overflows:
  \<open>getFPS\<close> returns \<open>Infinity\<close>. And the rounding is that of the JavaScript operations, not
  that of the exact quotient: with the timestamps \<open>0\<close> and \<open>3.2\<close> (the binary64 value nearest
  to it) the quotient is rounded to \<open>0.3125\<close> and \<open>getFPS\<close> returns 313, while the exact value
  of \<open>1 / span * 1000\<close> is below 312.5 and rounds to 312.
\<close>

theorem getFPS_counterexample:
  "getFPS \<lparr>canvas_width = 640, canvas_height = 480, frameTimestamps = [0, pow2 (- 1020)]\<rparr>
     = PosInf
   \<and> getFPS \<lparr>canvas_width = 640, canvas_height = 480,
        frameTimestamps = [0, 3602879701896397 / 1125899906842624]\<rparr> = Num 313
   \<and> \<lfloor>1 / (3602879701896397 / 1125899906842624) * 1000 + 1 / 2 :: real\<rfloor> = 312"
proof -
  have s: "fl (pow2 (- 1020)) = Num (pow2 (- 1020))"
    using fl_exact_pos [of "pow2 (- 1020)" 1 "- 1020"] by simp
  have q: "1 / pow2 (- 1020) = pow2 1020"
    using pow2_diff [of 0 "- 1020"] by (simp add: pow2_def)
  have d: "fl (pow2 1020) = Num (pow2 1020)"
    using fl_exact_pos [of "pow2 1020" 1 1020] by simp
  have "pow2 1024 = pow2 1020 * 16"
    using pow2_add [of 1020 4] by (simp add: pow2_def)
  then have "pow2 1024 \<le> pow2 1020 * 1000" by simp
  then have o: "fl (pow2 1020 * 1000) = PosInf" by (rule fl_overflow)
  have overflow:
    "getFPS \<lparr>canvas_width = 640, canvas_height = 480, frameTimestamps = [0, pow2 (- 1020)]\<rparr>
       = PosInf"
    by (simp add: getFPS_def js_sub_def js_add_def js_eq_def js_div_def js_mul_def is_zero_def
        s q d o)
  have s': "fl (3602879701896397 / 1125899906842624)
      = Num (3602879701896397 / 1125899906842624)"
    using fl_exact [of "3602879701896397 / 1125899906842624" 3602879701896397 "- 50"]
    by (simp add: pow2_def)
  have "round_even ((1 / (3602879701896397 / 1125899906842624)) / pow2 (- 2 - 52))
      = 5629499534213120"
    by (simp add: pow2_def round_even_def)
  from fl_eval_pos [of "- 2" _ 5629499534213120, OF _ _ _ _ this]
  have q': "fl (1 / (3602879701896397 / 1125899906842624)) = Num (5 / 16)"
    by (simp add: pow2_def)
  have m: "fl (625 / 2) = Num (625 / 2)"
    using fl_exact [of "625 / 2" 625 "- 1"] by (simp add: pow2_def)
  have rounded: "getFPS \<lparr>canvas_width = 640, canvas_height = 480,
      frameTimestamps = [0, 3602879701896397 / 1125899906842624]\<rparr> = Num 313"
    using s' q' m
    by (simp add: getFPS_def Let_def js_sub_Num js_div_Num js_mul_Num js_eq_def)
  have "\<lfloor>1 / (3602879701896397 / 1125899906842624) * 1000 + 1 / 2 :: real\<rfloor> = 312"
    by (simp add: floor_eq_iff)
  with overflow rounded show ?thesis by blast
qed

text \<open>
  C9, amended. \<open>getFPS\<close> never divides by zero and never returns \<open>NaN\<close>: it returns 0 when
  fewer than two timestamps are recorded or when the time span, the last timestamp minus
  the first, is zero, and otherwise \<open>Math.round((count - 1) / span * 1000)\<close> with the
  subtraction, the division and the multiplication of JavaScript numbers (each rounded,
  and an overflow gives an infinity). The result is finite whenever the buffer holds at
  most 30 timestamps and the last and the first differ by at least \<open>2^-1000\<close>. After any
  sequence of calls on a new processor the buffer holds at most 30 timestamps.
\<close>

theorem getFPS_not_NaN_and_buffer_bounded:
  "getFPS fp =
     (let ts = frameTimestamps fp;
          timeSpan = js_sub (Num (last ts)) (Num (hd ts))
      in if length ts < 2 \<or> js_eq timeSpan (Num 0) then Num 0
         else Math_round (js_mul (js_div (Num (real (length ts - 1))) timeSpan) (Num 1000)))
   \<and> getFPS fp \<noteq> NaN
   \<and> (length (frameTimestamps fp) \<le> 30
        \<and> pow2 (- 1000) \<le> \<bar>last (frameTimestamps fp) - hd (frameTimestamps fp)\<bar>
      \<longrightarrow> isFinite (getFPS fp))
   \<and> length (frameTimestamps (fp_run calls)) \<le> 30"
proof -
  have "length (frameTimestamps (fp_run calls)) \<le> FPS_SAMPLE_SIZE"
    unfolding fp_run_def
    by (rule foldl_fp_step_bound) (simp add: new_FrameProcessor_def)
  then have "length (frameTimestamps (fp_run calls)) \<le> 30"
    by (simp add: FPS_SAMPLE_SIZE_def)
  with getFPS_value [of fp] getFPS_not_NaN [of fp] getFPS_finite_span [of fp]
  show ?thesis by blast
qed

theorem getFPS_not_NaN_and_buffer_bounded_witness:
  "getFPS \<lparr>canvas_width = 640, canvas_height = 480, frameTimestamps = [0, 8, 16]\<rparr> = Num 125
   \<and> length [0, 8, 16 :: real] \<le> 30
   \<and> pow2 (- 1000) \<le> \<bar>last [0, 8, 16 :: real] - hd [0, 8, 16]\<bar>
   \<and> isFinite
        (getFPS \<lparr>canvas_width = 640, canvas_height = 480, frameTimestamps = [0, 8, 16]\<rparr>)
   \<and> length (frameTimestamps (fp_run
        [CaptureFrame \<lparr>readyState = 2, videoWidth = 640, videoHeight = 480\<rparr> 0,
         CaptureFrame \<lparr>readyState = 2, videoWidth = 640, videoHeight = 480\<rparr> 8])) \<le> 30"
proof -
  have e: "fl (1 / 8) = Num (1 / 8)"
    using fl_exact_pos [of "1 / 8" 1 "- 3"] by (simp add: pow2_def)
  have b: "pow2 (- 1000) \<le> 16"
    using pow2_mono [of "- 1000" 4] by (simp add: pow2_def [of 4])
  from getFPS_not_NaN_and_buffer_bounded
    [of "\<lparr>canvas_width = 640, canvas_height = 480, frameTimestamps = [0, 8, 16]\<rparr>"
        "[CaptureFrame \<lparr>readyState = 2, videoWidth = 640, videoHeight = 480\<rparr> 0,
          CaptureFrame \<lparr>readyState = 2, videoWidth = 640, videoHeight = 480\<rparr> 8]"]
  show ?thesis
    using b
    by (simp add: js_sub_def js_add_def js_eq_def js_div_def js_mul_def is_zero_def e)
qed

section \<open>Properties of FaceDetector\<close>

lemma set_js_sort_insert: "set (js_sort_insert c a bs) = insert a (set bs)"
  by (induction bs) auto

lemma set_js_sort: "set (js_sort c ps) = set ps"
  by (induction ps) (simp_all add: set_js_sort_insert)

lemma js_sort_not_Nil: "ps \<noteq> [] \<Longrightarrow> js_sort c ps \<noteq> []"
  by (metis set_js_sort set_empty)

lemma compare_scores:
  assumes "(snd a \<noteq> NaN \<and> js_grid (snd a))" and "(snd b \<noteq> NaN \<and> js_grid (snd b))"
  shows "js_gt (js_sub (snd b) (snd a)) (Num 0) \<longleftrightarrow> js_gt (snd b) (snd a)"
  using assms by (simp add: js_sub_sign)

lemma sorted_js_sort_insert:
  assumes "sorted_wrt (\<lambda>p q. js_le (snd q) (snd p)) bs"
    and "(snd a \<noteq> NaN \<and> js_grid (snd a))" and "\<forall>b\<in>set bs. (snd b \<noteq> NaN \<and> js_grid (snd b))"
  shows "sorted_wrt (\<lambda>p q. js_le (snd q) (snd p))
           (js_sort_insert (\<lambda>a b. js_sub (snd b) (snd a)) a bs)"
  using assms
proof (induction bs)
  case Nil
  then show ?case by simp
next
  case (Cons b bs)
  have ok: "snd a \<noteq> NaN" "snd b \<noteq> NaN"
    using Cons.prems by simp_all
  show ?case
  proof (cases "js_gt (snd b) (snd a)")
    case True
    then have "js_le (snd a) (snd b)" by (simp add: js_gt_def js_le_def)
    with True Cons show ?thesis
      by (auto simp: compare_scores set_js_sort_insert)
  next
    case False
    then have ba: "js_le (snd b) (snd a)" using ok by (simp add: not_js_gt_iff_le)
    have "\<forall>q\<in>set bs. js_le (snd q) (snd a)"
    proof
      fix q assume "q \<in> set bs"
      with Cons.prems(1) have "js_le (snd q) (snd b)" by simp
      then show "js_le (snd q) (snd a)" using ba by (rule js_le_trans)
    qed
    with False ba Cons.prems show ?thesis
      by (simp add: compare_scores)
  qed
qed

lemma sorted_js_sort:
  assumes "\<forall>p\<in>set ps. (snd p \<noteq> NaN \<and> js_grid (snd p))"
  shows "sorted_wrt (\<lambda>p q. js_le (snd q) (snd p)) (js_sort (\<lambda>a b. js_sub (snd b) (snd a)) ps)"
  using assms
  by (induction ps) (simp_all add: sorted_js_sort_insert set_js_sort)

lemma js_sort_first_is_max:
  assumes "ps \<noteq> []" and "q \<in> set ps" and "\<forall>p\<in>set ps. (snd p \<noteq> NaN \<and> js_grid (snd p))"
  shows "js_le (snd q) (snd (js_sort (\<lambda>a b. js_sub (snd b) (snd a)) ps ! 0))"
proof -
  let ?s = "js_sort (\<lambda>a b. js_sub (snd b) (snd a)) ps"
  from assms(1) obtain p rest where s: "?s = p # rest"
    using js_sort_not_Nil by (cases ?s) auto
  from assms(2) have "q \<in> set ?s" by (simp add: set_js_sort)
  with s have "q = p \<or> q \<in> set rest" by auto
  moreover have "sorted_wrt (\<lambda>p q. js_le (snd q) (snd p)) (p # rest)"
    using sorted_js_sort [OF assms(3)] s by simp
  moreover have "p \<in> set ps" using s set_js_sort [of _ ps] by (metis list.set_intros(1))
  then have "js_le (snd p) (snd p)"
    using assms(3) by (simp add: js_le_refl)
  ultimately have "js_le (snd q) (snd p)" by auto
  with s show ?thesis by simp
qed

lemma js_grid_totalScore: "js_grid (totalScore d W H)"
  by (simp add: totalScore_def Let_def)

lemma selectBestFace_many:
  assumes "2 \<le> length ds" and "\<forall>d\<in>set ds. totalScore d W H \<noteq> NaN"
  shows "\<exists>d\<in>set ds. selectBestFace ds W H = Some d
           \<and> (\<forall>d'\<in>set ds. js_le (totalScore d' W H) (totalScore d W H))"
proof -
  let ?scored = "map (\<lambda>face. (face, totalScore face W H)) ds"
  let ?s = "js_sort (\<lambda>a b. js_sub (snd b) (snd a)) ?scored"
  from assms(1) have ne: "?scored \<noteq> []" by auto
  have ok: "\<forall>p\<in>set ?scored. (snd p \<noteq> NaN \<and> js_grid (snd p))"
    using assms(2) by (auto simp: js_grid_totalScore)
  from ne have "?s \<noteq> []" by (rule js_sort_not_Nil)
  then have "?s ! 0 \<in> set ?s" by (cases ?s) auto
  then have mem: "?s ! 0 \<in> set ?scored" by (simp only: set_js_sort)
  then obtain d where d: "d \<in> set ds" and p: "?s ! 0 = (d, totalScore d W H)" by auto
  have "\<forall>d'\<in>set ds. js_le (totalScore d' W H) (totalScore d W H)"
  proof
    fix d' assume "d' \<in> set ds"
    then have "(d', totalScore d' W H) \<in> set ?scored" by auto
    from js_sort_first_is_max [OF ne this ok] p
    show "js_le (totalScore d' W H) (totalScore d W H)" by simp
  qed
  moreover from assms(1) have "length ds \<noteq> 0" and "length ds \<noteq> 1" by arith+
  with p have "selectBestFace ds W H = Some d"
    by (simp add: selectBestFace_def Let_def)
  ultimately show ?thesis using d by blast
qed

lemma selectBestFace_None_iff: "selectBestFace ds W H = None \<longleftrightarrow> ds = []"
  by (simp add: selectBestFace_def Let_def)

lemma selectBestFace_member:
  assumes "ds \<noteq> []"
  shows "\<exists>d\<in>set ds. selectBestFace ds W H = Some d"
proof (cases "length ds = 1")
  case True
  then have "ds ! 0 \<in> set ds" by (cases ds) auto
  with True show ?thesis by (simp add: selectBestFace_def)
next
  case False
  let ?scored = "map (\<lambda>face. (face, totalScore face W H)) ds"
  let ?s = "js_sort (\<lambda>a b. js_sub (snd b) (snd a)) ?scored"
  from assms have "?scored \<noteq> []" by simp
  then have "?s \<noteq> []" by (rule js_sort_not_Nil)
  then have "?s ! 0 \<in> set ?s" by (cases ?s) auto
  then have "?s ! 0 \<in> set ?scored" by (simp only: set_js_sort)
  then have "fst (?s ! 0) \<in> set ds" by auto
  with False assms show ?thesis by (simp add: selectBestFace_def Let_def)
qed

lemma totalScore_zero_width:
  "totalScore \<lparr>boundingBox = \<lparr>box_x = Num 0, box_y = Num 254, box_width = Num 2,
       box_height = Num 4\<rparr>, confidence = c\<rparr> (Num 0) (Num 512) = NaN"
  "totalScore \<lparr>boundingBox = \<lparr>box_x = Num 0, box_y = Num 252, box_width = Num 4,
       box_height = Num 8\<rparr>, confidence = c\<rparr> (Num 0) (Num 512) = NaN"
  by (simp_all add: totalScore_def Let_def js_div_Num js_mul_Num js_add_Num js_sub_Num
      js_mul_Inf_Num js_special_ops Math_pow_2_def js_zero_def js_inf_def fl_7_10 fl_3_10)

lemma fl_256: "fl 256 = Num 256"
  using fl_exact [of 256 1 8] by (simp add: pow2_def)

lemma fl_3_10_exact:
  "fl (5404319552844595 / 18014398509481984) = Num (5404319552844595 / 18014398509481984)"
  using fl_exact [of "5404319552844595 / 18014398509481984" 5404319552844595 "- 54"]
  by (simp add: pow2_def)

lemma totalScore_tiny_face:
  "totalScore tiny_face (Num 512) (Num 512) = Num (5404319552844595 / 18014398509481984)"
proof -
  have h: "fl (1 / 2 ^ 30 / 2) = Num (1 / 2 ^ 31)"
    using fl_exact [of "1 / 2 ^ 31" 1 "- 31"] by (simp add: pow2_def)
  have a: "fl (1 / 2 ^ 30 * (1 / 2 ^ 30)) = Num (1 / 2 ^ 60)"
    using fl_exact [of "1 / 2 ^ 60" 1 "- 60"] by (simp add: pow2_def)
  have w: "fl (512 * 512) = Num 262144"
    using fl_exact [of 262144 1 18] by (simp add: pow2_def)
  have s: "fl (1 / 2 ^ 60 / 262144) = Num (1 / 2 ^ 78)"
    using fl_exact [of "1 / 2 ^ 78" 1 "- 78"] by (simp add: pow2_def)
  have p: "fl (1 / 2 ^ 78 * (6305039478318694 / 9007199254740992))
      = Num (6305039478318694 / 9007199254740992 / 2 ^ 78)"
    using fl_exact [of "6305039478318694 / 9007199254740992 / 2 ^ 78" 6305039478318694 "- 131"]
    by (simp add: pow2_def)
  have "round_even ((6305039478318694 / 9007199254740992 / 2 ^ 78
      + 5404319552844595 / 18014398509481984) / pow2 (- 2 - 52)) = 5404319552844595"
    by (simp add: pow2_def round_even_def)
  from fl_eval_pos [of "- 2" _ 5404319552844595, OF _ _ _ _ this]
  have f: "fl (6305039478318694 / 9007199254740992 / 2 ^ 78
      + 5404319552844595 / 18014398509481984) = Num (5404319552844595 / 18014398509481984)"
    by (simp add: pow2_def)
  show ?thesis
    using h a w s p f fl_256 fl_3_10_exact
    by (simp add: tiny_face_def totalScore_def Let_def js_div_Num js_mul_Num js_add_Num
        js_sub_Num Math_pow_2_def js_zero_def fl_7_10 fl_3_10)
qed

lemma totalScore_wider_face:
  "totalScore wider_face (Num 512) (Num 512) = Num (5404319552844595 / 18014398509481984)"
proof -
  have h: "fl (1 / 2 ^ 29 / 2) = Num (1 / 2 ^ 30)" "fl (1 / 2 ^ 30 / 2) = Num (1 / 2 ^ 31)"
    using fl_exact [of "1 / 2 ^ 30" 1 "- 30"] fl_exact [of "1 / 2 ^ 31" 1 "- 31"]
    by (simp_all add: pow2_def)
  have a: "fl (1 / 2 ^ 29 * (1 / 2 ^ 30)) = Num (1 / 2 ^ 59)"
    using fl_exact [of "1 / 2 ^ 59" 1 "- 59"] by (simp add: pow2_def)
  have w: "fl (512 * 512) = Num 262144"
    using fl_exact [of 262144 1 18] by (simp add: pow2_def)
  have s: "fl (1 / 2 ^ 59 / 262144) = Num (1 / 2 ^ 77)"
    using fl_exact [of "1 / 2 ^ 77" 1 "- 77"] by (simp add: pow2_def)
  have p: "fl (1 / 2 ^ 77 * (6305039478318694 / 9007199254740992))
      = Num (6305039478318694 / 9007199254740992 / 2 ^ 77)"
    using fl_exact [of "6305039478318694 / 9007199254740992 / 2 ^ 77" 6305039478318694 "- 130"]
    by (simp add: pow2_def)
  have "round_even ((6305039478318694 / 9007199254740992 / 2 ^ 77
      + 5404319552844595 / 18014398509481984) / pow2 (- 2 - 52)) = 5404319552844595"
    by (simp add: pow2_def round_even_def)
  from fl_eval_pos [of "- 2" _ 5404319552844595, OF _ _ _ _ this]
  have f: "fl (6305039478318694 / 9007199254740992 / 2 ^ 77
      + 5404319552844595 / 18014398509481984) = Num (5404319552844595 / 18014398509481984)"
    by (simp add: pow2_def)
  show ?thesis
    using h a w s p f fl_256 fl_3_10_exact
    by (simp add: wider_face_def totalScore_def Let_def js_div_Num js_mul_Num js_add_Num
        js_sub_Num Math_pow_2_def js_zero_def fl_7_10 fl_3_10)
qed

lemma faceScore_tiny_wider:
  "faceScore tiny_face (Num 512) (Num 512) < faceScore wider_face (Num 512) (Num 512)"
  by (simp add: faceScore_def tiny_face_def wider_face_def Let_def)

lemma totalScore_small:
  "totalScore \<lparr>boundingBox = \<lparr>box_x = Num 254, box_y = Num 254, box_width = Num 4,
       box_height = Num 4\<rparr>, confidence = c\<rparr> (Num 512) (Num 512)
     = Num (5405089210984038 / 18014398509481984)"
proof -
  have f1: "fl (1 / 16384) = Num (1 / 16384)"
    using fl_exact [of "1 / 16384" 1 "- 14"] by (simp add: pow2_def)
  have f2: "fl (6305039478318694 / 147573952589676412928)
      = Num (6305039478318694 / 147573952589676412928)"
    using fl_exact [of "6305039478318694 / 147573952589676412928" 6305039478318694 "- 67"]
    by (simp add: pow2_def)
  have f3: "fl (5404319552844595 / 18014398509481984)
      = Num (5404319552844595 / 18014398509481984)"
    using fl_exact [of "5404319552844595 / 18014398509481984" 5404319552844595 "- 54"]
    by (simp add: pow2_def)
  have "round_even ((6305039478318694 / 147573952589676412928
      + 5404319552844595 / 18014398509481984) / pow2 (- 2 - 52)) = 5405089210984038"
    by (simp add: pow2_def round_even_def)
  from fl_eval_pos [of "- 2" _ 5405089210984038, OF _ _ _ _ this]
  have f4: "fl (6305039478318694 / 147573952589676412928
      + 5404319552844595 / 18014398509481984) = Num (5405089210984038 / 18014398509481984)"
    by (simp add: pow2_def)
  show ?thesis
    using f1 f2 f3 f4
    by (simp add: totalScore_def Let_def js_div_Num js_mul_Num js_add_Num js_sub_Num
        Math_pow_2_def js_zero_def fl_7_10 fl_3_10)
qed


lemma totalScore_large:
  "totalScore \<lparr>boundingBox = \<lparr>box_x = Num 252, box_y = Num 252, box_width = Num 8,
       box_height = Num 8\<rparr>, confidence = c\<rparr> (Num 512) (Num 512)
     = Num (5407398185402368 / 18014398509481984)"
proof -
  have f1: "fl (1 / 4096) = Num (1 / 4096)"
    using fl_exact [of "1 / 4096" 1 "- 12"] by (simp add: pow2_def)
  have f2: "fl (6305039478318694 / 36893488147419103232)
      = Num (6305039478318694 / 36893488147419103232)"
    using fl_exact [of "6305039478318694 / 36893488147419103232" 6305039478318694 "- 65"]
    by (simp add: pow2_def)
  have f3: "fl (5404319552844595 / 18014398509481984)
      = Num (5404319552844595 / 18014398509481984)"
    using fl_exact [of "5404319552844595 / 18014398509481984" 5404319552844595 "- 54"]
    by (simp add: pow2_def)
  have "round_even ((6305039478318694 / 36893488147419103232
      + 5404319552844595 / 18014398509481984) / pow2 (- 2 - 52)) = 5407398185402368"
    by (simp add: pow2_def round_even_def)
  from fl_eval_pos [of "- 2" _ 5407398185402368, OF _ _ _ _ this]
  have f4: "fl (6305039478318694 / 36893488147419103232
      + 5404319552844595 / 18014398509481984) = Num (5407398185402368 / 18014398509481984)"
    by (simp add: pow2_def)
  show ?thesis
    using f1 f2 f3 f4
    by (simp add: totalScore_def Let_def js_div_Num js_mul_Num js_add_Num js_sub_Num
        Math_pow_2_def js_zero_def fl_7_10 fl_3_10)
qed

text \<open>
  C8, as stated, fails. The scores are computed in binary64 arithmetic: for the two small
  centred faces the size term is lost in the last addition, both computed scores are
  \<open>0.3\<close>, the comparison function returns 0 and the first face stays first, although the
  score of the claim, on the real numbers, is larger for the second, wider face. And for an
  image of width 0 every computed score is \<open>NaN\<close>, as \<open>Infinity * 0.7 + (-Infinity) * 0.3\<close>:
  the first face is returned, and no score is at most another.
\<close>

theorem selectBestFace_counterexample:
  "selectBestFace [tiny_face, wider_face] (Num 512) (Num 512) = Some tiny_face
   \<and> faceScore tiny_face (Num 512) (Num 512) < faceScore wider_face (Num 512) (Num 512)
   \<and> selectBestFace
     [\<lparr>boundingBox = \<lparr>box_x = Num 0, box_y = Num 254, box_width = Num 2, box_height = Num 4\<rparr>,
       confidence = fl (9 / 10)\<rparr>,
      \<lparr>boundingBox = \<lparr>box_x = Num 0, box_y = Num 252, box_width = Num 4, box_height = Num 8\<rparr>,
       confidence = fl (9 / 10)\<rparr>] (Num 0) (Num 512)
   = Some \<lparr>boundingBox = \<lparr>box_x = Num 0, box_y = Num 254, box_width = Num 2,
             box_height = Num 4\<rparr>, confidence = fl (9 / 10)\<rparr>
   \<and> \<not> js_le
       (totalScore \<lparr>boundingBox = \<lparr>box_x = Num 0, box_y = Num 252, box_width = Num 4,
          box_height = Num 8\<rparr>, confidence = fl (9 / 10)\<rparr> (Num 0) (Num 512))
       (totalScore \<lparr>boundingBox = \<lparr>box_x = Num 0, box_y = Num 254, box_width = Num 2,
          box_height = Num 4\<rparr>, confidence = fl (9 / 10)\<rparr> (Num 0) (Num 512))"
proof -
  have "selectBestFace [tiny_face, wider_face] (Num 512) (Num 512) = Some tiny_face"
    by (simp add: selectBestFace_def Let_def totalScore_tiny_face totalScore_wider_face
        js_sub_Num js_gt_def js_lt_def)
  moreover note faceScore_tiny_wider
  ultimately show ?thesis
    by (simp add: selectBestFace_def Let_def totalScore_zero_width js_special_ops
        js_gt_def js_lt_def js_le_def js_eq_def)
qed

text \<open>
  C8, amended. \<open>selectBestFace\<close> returns \<open>null\<close> if and only if the list of detections is
  empty; for a non-empty list it returns an element of the list; and for a list of two or
  more faces none of whose scores is \<open>NaN\<close> it returns a face whose score is exceeded by
  none, the score being \<open>totalScore\<close>: the formula
  \<open>(width * height) / (imageWidth * imageHeight) * 0.7 + (1 - distance) * 0.3\<close>, with the
  distance of the centre of the box from the centre of the image relative to the image
  size, evaluated in the binary64 arithmetic of JavaScript, each operation rounded.
\<close>

theorem selectBestFace_correct:
  "(selectBestFace detections imageWidth imageHeight = None \<longleftrightarrow> detections = [])
    \<and> (detections \<noteq> [] \<longrightarrow>
         (\<exists>d\<in>set detections. selectBestFace detections imageWidth imageHeight = Some d))
    \<and> (2 \<le> length detections
         \<and> (\<forall>d\<in>set detections. totalScore d imageWidth imageHeight \<noteq> NaN) \<longrightarrow>
         (\<exists>d\<in>set detections. selectBestFace detections imageWidth imageHeight = Some d
            \<and> (\<forall>d'\<in>set detections.
                  js_le (totalScore d' imageWidth imageHeight)
                        (totalScore d imageWidth imageHeight))))"
proof (intro conjI impI)
  show "selectBestFace detections imageWidth imageHeight = None \<longleftrightarrow> detections = []"
    by (rule selectBestFace_None_iff)
next
  assume "detections \<noteq> []"
  then show "\<exists>d\<in>set detections. selectBestFace detections imageWidth imageHeight = Some d"
    by (rule selectBestFace_member)
next
  assume "2 \<le> length detections
    \<and> (\<forall>d\<in>set detections. totalScore d imageWidth imageHeight \<noteq> NaN)"
  then show "\<exists>d\<in>set detections. selectBestFace detections imageWidth imageHeight = Some d
            \<and> (\<forall>d'\<in>set detections.
                  js_le (totalScore d' imageWidth imageHeight)
                        (totalScore d imageWidth imageHeight))"
    using selectBestFace_many by blast
qed

theorem selectBestFace_correct_witness:
  "selectBestFace
     [\<lparr>boundingBox = \<lparr>box_x = Num 254, box_y = Num 254, box_width = Num 4,
         box_height = Num 4\<rparr>, confidence = fl (9 / 10)\<rparr>,
      \<lparr>boundingBox = \<lparr>box_x = Num 252, box_y = Num 252, box_width = Num 8,
         box_height = Num 8\<rparr>, confidence = fl (9 / 10)\<rparr>] (Num 512) (Num 512)
   = Some \<lparr>boundingBox = \<lparr>box_x = Num 252, box_y = Num 252, box_width = Num 8,
         box_height = Num 8\<rparr>, confidence = fl (9 / 10)\<rparr>"
proof -
  define small :: FaceDetection where "small =
    \<lparr>boundingBox = \<lparr>box_x = Num 254, box_y = Num 254, box_width = Num 4,
       box_height = Num 4\<rparr>, confidence = fl (9 / 10)\<rparr>"
  define large :: FaceDetection where "large =
    \<lparr>boundingBox = \<lparr>box_x = Num 252, box_y = Num 252, box_width = Num 8,
       box_height = Num 8\<rparr>, confidence = fl (9 / 10)\<rparr>"
  have s: "totalScore small (Num 512) (Num 512) = Num (5405089210984038 / 18014398509481984)"
    unfolding small_def by (rule totalScore_small)
  have l: "totalScore large (Num 512) (Num 512) = Num (5407398185402368 / 18014398509481984)"
    unfolding large_def by (rule totalScore_large)
  have hyp: "2 \<le> length [small, large]
      \<and> (\<forall>d\<in>set [small, large]. totalScore d (Num 512) (Num 512) \<noteq> NaN)"
    by (simp add: s l)
  from selectBestFace_correct [of "[small, large]" "Num 512" "Num 512", THEN conjunct2,
      THEN conjunct2, THEN mp, OF hyp]
  obtain d where d: "d \<in> set [small, large]"
    and sel: "selectBestFace [small, large] (Num 512) (Num 512) = Some d"
    and mx: "\<forall>d'\<in>set [small, large].
      js_le (totalScore d' (Num 512) (Num 512)) (totalScore d (Num 512) (Num 512))"
    by blast
  from mx have "js_le (totalScore large (Num 512) (Num 512)) (totalScore d (Num 512) (Num 512))"
    by simp
  moreover have "\<not> js_le (totalScore large (Num 512) (Num 512))
      (totalScore small (Num 512) (Num 512))"
    by (simp add: s l js_le_def js_lt_def js_eq_def)
  ultimately have "d \<noteq> small" by auto
  with d have "d = large" by simp
  with sel show ?thesis unfolding small_def large_def by simp
qed

section \<open>Properties of the status messages\<close>

text \<open>
  C7. The mapping from measurement state to guidance message is total: every member of
  \<open>MeasurementState\<close> has a (non-empty) status message in every supported language.
\<close>

theorem statusMessage_total:
  "\<exists>m. statusMessage lang state = Some m \<and> m \<noteq> []"
  by (cases lang; cases state) (simp_all add: statusMessage_def ascii_def)

section \<open>Properties of CameraManager\<close>

text \<open>
  C10, as stated, fails: a manager with no callback registered calls none when
  \<open>initialize\<close> fails (here the browser has no \<open>navigator.mediaDevices\<close>).
\<close>

theorem initialize_failure_counterexample:
  "initialize \<lparr>mediaDevices = None\<rparr> None new_CameraManager
     = (Inl notSupportedError, new_CameraManager, [])"
  by (simp add: initialize_def initialize_try_def handleError_def new_CameraManager_def
      notSupportedError_def)

text \<open>
  C10, amended. When \<open>initialize\<close> fails with an error, that error is rethrown and the
  manager is unchanged, so the stream is as it was (\<open>null\<close> if it was \<open>null\<close>). Before the
  rethrow at most one callback is called, with the failing error: the permission-denied
  callback if the name of the error is \<open>NotAllowedError\<close> or \<open>PermissionDeniedError\<close>, the
  initialization-error callback otherwise; it is called exactly when it is registered.
\<close>

theorem initialize_failure:
  assumes "initialize navigator constraints cm = (Inl e, cm', events)"
  shows "initialize_try navigator constraints = Inl e
    \<and> cm' = cm
    \<and> (stream cm = None \<longrightarrow> stream cm' = None)
    \<and> events =
        (case (if error_name e = ''NotAllowedError'' \<or> error_name e = ''PermissionDeniedError''
               then permissionDeniedCallback cm else initializationErrorCallback cm) of
           Some cb \<Rightarrow> [Invoked cb e]
         | None \<Rightarrow> [])"
  using assms
  by (auto simp: initialize_def handleError_def split: sum.splits option.splits)

theorem initialize_failure_witness:
  "initialize
     \<lparr>mediaDevices = Some \<lparr>getUserMedia = Some (\<lambda>c. Inl
        \<lparr>error_name = ''NotAllowedError'', error_message = ascii ''Permission denied''\<rparr>)\<rparr>\<rparr>
     None (onPermissionDenied (Callback 1) new_CameraManager)
   = (Inl \<lparr>error_name = ''NotAllowedError'', error_message = ascii ''Permission denied''\<rparr>,
      onPermissionDenied (Callback 1) new_CameraManager,
      [Invoked (Callback 1)
         \<lparr>error_name = ''NotAllowedError'', error_message = ascii ''Permission denied''\<rparr>])"
proof -
  define e where "e = \<lparr>error_name = ''NotAllowedError'', error_message = ascii ''Permission denied''\<rparr>"
  define nav where "nav = \<lparr>mediaDevices = Some \<lparr>getUserMedia = Some (\<lambda>c. Inl e)\<rparr>\<rparr>"
  define cm where "cm = onPermissionDenied (Callback 1) new_CameraManager"
  have run: "initialize nav None cm = (Inl e, cm, handleError e cm)"
    by (simp add: initialize_def initialize_try_def nav_def)
  from initialize_failure [OF run]
  have "handleError e cm = [Invoked (Callback 1) e]"
    by (simp add: e_def cm_def onPermissionDenied_def)
  with run show ?thesis
    unfolding e_def nav_def cm_def by simp
qed

section \<open>Properties of EyeDetector\<close>

lemma calculateEyeCenter_four:
  assumes "i1 < length ls" and "i2 < length ls" and "i3 < length ls" and "i4 < length ls"
  shows "calculateEyeCenter ls [i1, i2, i3, i4] w h = Inr (eyeCenter ls i1 i2 i3 i4 w h)"
  using assms by (simp add: calculateEyeCenter_def eyeCenter_def Let_def)

lemma calculateEyeCenter_eyes:
  assumes "386 < length ls"
  shows "calculateEyeCenter ls LEFT_EYE_INDICES w h = Inr (eyeCenter ls 33 133 159 145 w h)"
    and "calculateEyeCenter ls RIGHT_EYE_INDICES w h = Inr (eyeCenter ls 362 263 386 374 w h)"
  using assms
  unfolding LEFT_EYE_INDICES_def RIGHT_EYE_INDICES_def
  by (simp_all add: calculateEyeCenter_four)

lemma processResults_centers:
  assumes "multiFaceLandmarks results = Some (ls # others)"
    and "calculateEyeCenter ls LEFT_EYE_INDICES
           (results_image_width results) (results_image_height results) = Inr l"
    and "calculateEyeCenter ls RIGHT_EYE_INDICES
           (results_image_width results) (results_image_height results) = Inr r"
  shows "processResults results det =
    Inr (det\<lparr>lastEyePosition :=
               Some \<lparr>left = l, right = r, eye_confidence = fl (9 / 10)\<rparr>,
             pendingResolve := None\<rparr>,
         case pendingResolve det of
           Some resolve \<Rightarrow>
             [Resolved resolve (Some \<lparr>left = l, right = r, eye_confidence = fl (9 / 10)\<rparr>)]
         | None \<Rightarrow> [])"
  by (cases "pendingResolve det") (simp_all add: processResults_def Let_def assms)

lemma mirrored_face_values:
  "386 < length mirrored_face"
  "mirrored_face ! 33 = \<lparr>lm_x = Num (3 / 4), lm_y = Num (1 / 2)\<rparr>"
  "mirrored_face ! 133 = \<lparr>lm_x = Num (3 / 4), lm_y = Num (1 / 2)\<rparr>"
  "mirrored_face ! 159 = \<lparr>lm_x = Num (3 / 4), lm_y = Num (1 / 2)\<rparr>"
  "mirrored_face ! 145 = \<lparr>lm_x = Num (3 / 4), lm_y = Num (1 / 2)\<rparr>"
  "mirrored_face ! 362 = \<lparr>lm_x = Num (1 / 4), lm_y = Num (1 / 2)\<rparr>"
  "mirrored_face ! 263 = \<lparr>lm_x = Num (1 / 4), lm_y = Num (1 / 2)\<rparr>"
  "mirrored_face ! 386 = \<lparr>lm_x = Num (1 / 4), lm_y = Num (1 / 2)\<rparr>"
  "mirrored_face ! 374 = \<lparr>lm_x = Num (1 / 4), lm_y = Num (1 / 2)\<rparr>"
  by (simp_all add: mirrored_face_def)

lemma mirrored_face_centers:
  "eyeCenter mirrored_face 33 133 159 145 (Num 640) (Num 480) = \<lparr>x = Num 480, y = Num 240\<rparr>"
  "eyeCenter mirrored_face 362 263 386 374 (Num 640) (Num 480) = \<lparr>x = Num 160, y = Num 240\<rparr>"
  by (simp_all add: eyeCenter_def mirrored_face_values js_add_Num js_mul_Num js_div_Num)

lemma upright_face_values:
  "386 < length upright_face"
  "upright_face ! 33 = \<lparr>lm_x = Num (1 / 4), lm_y = Num (1 / 2)\<rparr>"
  "upright_face ! 133 = \<lparr>lm_x = Num (1 / 4), lm_y = Num (1 / 2)\<rparr>"
  "upright_face ! 159 = \<lparr>lm_x = Num (1 / 4), lm_y = Num (1 / 2)\<rparr>"
  "upright_face ! 145 = \<lparr>lm_x = Num (1 / 4), lm_y = Num (1 / 2)\<rparr>"
  "upright_face ! 362 = \<lparr>lm_x = Num (3 / 4), lm_y = Num (1 / 2)\<rparr>"
  "upright_face ! 263 = \<lparr>lm_x = Num (3 / 4), lm_y = Num (1 / 2)\<rparr>"
  "upright_face ! 386 = \<lparr>lm_x = Num (3 / 4), lm_y = Num (1 / 2)\<rparr>"
  "upright_face ! 374 = \<lparr>lm_x = Num (3 / 4), lm_y = Num (1 / 2)\<rparr>"
  by (simp_all add: upright_face_def)

lemma upright_face_centers:
  "eyeCenter upright_face 33 133 159 145 (Num 640) (Num 480) = \<lparr>x = Num 160, y = Num 240\<rparr>"
  "eyeCenter upright_face 362 263 386 374 (Num 640) (Num 480) = \<lparr>x = Num 480, y = Num 240\<rparr>"
  by (simp_all add: eyeCenter_def upright_face_values js_add_Num js_mul_Num js_div_Num)

text \<open>
  C6, as stated, fails: for a mirrored face \<open>processResults\<close> produces an eye position with
  \<open>left.x = 480 >= right.x = 160\<close>, stores it as the last eye position and resolves the
  pending promise with it.
\<close>

theorem processResults_orientation_counterexample:
  "processResults
     \<lparr>multiFaceLandmarks = Some [mirrored_face],
      results_image_width = Num 640, results_image_height = Num 480\<rparr>
     \<lparr>ready = True, pendingResolve = Some (Resolver 1), lastEyePosition = None\<rparr>
   = Inr (\<lparr>ready = True, pendingResolve = None,
           lastEyePosition = Some \<lparr>left = \<lparr>x = Num 480, y = Num 240\<rparr>,
                                   right = \<lparr>x = Num 160, y = Num 240\<rparr>,
                                   eye_confidence = fl (9 / 10)\<rparr>\<rparr>,
          [Resolved (Resolver 1)
             (Some \<lparr>left = \<lparr>x = Num 480, y = Num 240\<rparr>, right = \<lparr>x = Num 160, y = Num 240\<rparr>,
                    eye_confidence = fl (9 / 10)\<rparr>)])
   \<and> js_ge (x (left \<lparr>left = \<lparr>x = Num 480, y = Num 240\<rparr>, right = \<lparr>x = Num 160, y = Num 240\<rparr>,
                      eye_confidence = fl (9 / 10)\<rparr>))
           (x (right \<lparr>left = \<lparr>x = Num 480, y = Num 240\<rparr>, right = \<lparr>x = Num 160, y = Num 240\<rparr>,
                      eye_confidence = fl (9 / 10)\<rparr>))"
proof -
  have face: "multiFaceLandmarks \<lparr>multiFaceLandmarks = Some [mirrored_face],
      results_image_width = Num 640, results_image_height = Num 480\<rparr> = Some (mirrored_face # [])"
    by simp
  have l: "calculateEyeCenter mirrored_face LEFT_EYE_INDICES
      (results_image_width \<lparr>multiFaceLandmarks = Some [mirrored_face],
         results_image_width = Num 640, results_image_height = Num 480\<rparr>)
      (results_image_height \<lparr>multiFaceLandmarks = Some [mirrored_face],
         results_image_width = Num 640, results_image_height = Num 480\<rparr>)
      = Inr \<lparr>x = Num 480, y = Num 240\<rparr>"
    by (simp add: calculateEyeCenter_eyes [OF mirrored_face_values(1)] mirrored_face_centers)
  have r: "calculateEyeCenter mirrored_face RIGHT_EYE_INDICES
      (results_image_width \<lparr>multiFaceLandmarks = Some [mirrored_face],
         results_image_width = Num 640, results_image_height = Num 480\<rparr>)
      (results_image_height \<lparr>multiFaceLandmarks = Some [mirrored_face],
         results_image_width = Num 640, results_image_height = Num 480\<rparr>)
      = Inr \<lparr>x = Num 160, y = Num 240\<rparr>"
    by (simp add: calculateEyeCenter_eyes [OF mirrored_face_values(1)] mirrored_face_centers)
  show ?thesis
    by (simp add: processResults_centers [OF face l r] js_ge_def js_le_def js_lt_def js_eq_def)
qed

text \<open>
  C6, amended. \<open>processResults\<close> checks no orientation and rejects no eye position. For
  results whose first face has at least 387 landmarks it produces the eye position whose
  left centre is the centre of the landmarks 33, 133, 159, 145 and whose right centre is
  the centre of the landmarks 362, 263, 386, 374 (in each coordinate the four landmark
  coordinates, each multiplied by the image size, are added to 0 one after the other and
  the sum is divided by 4, in the arithmetic of JavaScript numbers), with the confidence
  0.9; it stores this eye position as the last eye position and resolves the pending
  promise, if there is one, with it, whatever the order of \<open>left.x\<close> and \<open>right.x\<close>.
\<close>

theorem processResults_no_orientation_check:
  assumes "multiFaceLandmarks results = Some (ls # others)"
    and "386 < length ls"
  shows "processResults results det =
    (let width = results_image_width results;
         height = results_image_height results;
         eyePosition = \<lparr>left = eyeCenter ls 33 133 159 145 width height,
                        right = eyeCenter ls 362 263 386 374 width height,
                        eye_confidence = fl (9 / 10)\<rparr>
     in Inr (det\<lparr>lastEyePosition := Some eyePosition, pendingResolve := None\<rparr>,
             case pendingResolve det of
               Some resolve \<Rightarrow> [Resolved resolve (Some eyePosition)]
             | None \<Rightarrow> []))"
  unfolding Let_def
  using assms(1)
  by (rule processResults_centers) (simp_all add: calculateEyeCenter_eyes [OF assms(2)])

theorem processResults_no_orientation_check_witness:
  "processResults
     \<lparr>multiFaceLandmarks = Some [upright_face],
      results_image_width = Num 640, results_image_height = Num 480\<rparr>
     \<lparr>ready = True, pendingResolve = Some (Resolver 1), lastEyePosition = None\<rparr>
   = Inr (\<lparr>ready = True, pendingResolve = None,
           lastEyePosition = Some \<lparr>left = \<lparr>x = Num 160, y = Num 240\<rparr>,
                                   right = \<lparr>x = Num 480, y = Num 240\<rparr>,
                                   eye_confidence = fl (9 / 10)\<rparr>\<rparr>,
          [Resolved (Resolver 1)
             (Some \<lparr>left = \<lparr>x = Num 160, y = Num 240\<rparr>, right = \<lparr>x = Num 480, y = Num 240\<rparr>,
                    eye_confidence = fl (9 / 10)\<rparr>)])"
proof -
  have face: "multiFaceLandmarks \<lparr>multiFaceLandmarks = Some [upright_face],
      results_image_width = Num 640, results_image_height = Num 480\<rparr> = Some (upright_face # [])"
    by simp
  from processResults_no_orientation_check [OF face upright_face_values(1),
      of "\<lparr>ready = True, pendingResolve = Some (Resolver 1), lastEyePosition = None\<rparr>"]
  show ?thesis
    by (simp add: Let_def upright_face_centers)
qed

section \<open>Properties of DistanceCalculator\<close>

text \<open>
  C1. \<open>computeIPD\<close> returns an error exactly when one of its three inputs is not finite
  (\<open>NaN\<close> or an infinity) or \<open>cardPixelWidth <= 0\<close>, and the error is \<open>InvalidInput\<close>; in
  particular it fails for a card width of 0, whatever the other inputs. Otherwise it
  returns \<open>(eyePixelDistance / cardPixelWidth) * cardRealWidthMm\<close>.
\<close>

theorem computeIPD_error_iff:
  "(isl (computeIPD e c w) \<longleftrightarrow>
      \<not> isFinite e \<or> \<not> isFinite c \<or> \<not> isFinite w \<or> js_le c (Num 0))
   \<and> (isl (computeIPD e c w) \<longrightarrow> computeIPD e c w = Inl InvalidInput)
   \<and> (\<not> isl (computeIPD e c w) \<longrightarrow> computeIPD e c w = Inr (js_mul (js_div e c) w))
   \<and> computeIPD e (Num 0) w = Inl InvalidInput"
  by (auto simp: computeIPD_def js_le_def js_eq_def js_lt_def)

theorem computeIPD_error_iff_witness:
  "computeIPD (Num 100) (Num 200) (fl (428 / 5))
     = Inr (Num (6023564501608038 / 140737488355328))
   \<and> computeIPD (Num 100) (Num 200) NaN = Inl InvalidInput
   \<and> computeIPD PosInf (Num 200) (fl (428 / 5)) = Inl InvalidInput
   \<and> computeIPD (Num 100) (Num 0) (fl (428 / 5)) = Inl InvalidInput"
proof -
  have "round_even ((428 / 5) / pow2 (6 - 52)) = 6023564501608038"
    by (simp add: pow2_def round_even_def)
  from fl_eval_pos [of 6 "428 / 5" 6023564501608038, OF _ _ _ _ this]
  have w: "fl (428 / 5) = Num (6023564501608038 / 70368744177664)"
    by (simp add: pow2_def)
  have h: "fl (1 / 2) = Num (1 / 2)"
    using fl_exact [of "1 / 2" 1 "- 1"] by (simp add: pow2_def)
  have p: "fl (6023564501608038 / 140737488355328) = Num (6023564501608038 / 140737488355328)"
    using fl_exact [of "6023564501608038 / 140737488355328" 6023564501608038 "- 47"]
    by (simp add: pow2_def)
  have v: "js_mul (js_div (Num 100) (Num 200)) (fl (428 / 5))
      = Num (6023564501608038 / 140737488355328)"
    unfolding w using h p by (simp add: js_div_Num js_mul_Num)
  have a: "\<not> isl (computeIPD (Num 100) (Num 200) (fl (428 / 5)))"
    using computeIPD_error_iff [of "Num 100" "Num 200" "fl (428 / 5)"]
    by (simp add: w js_le_def js_lt_def js_eq_def)
  then have "computeIPD (Num 100) (Num 200) (fl (428 / 5))
      = Inr (Num (6023564501608038 / 140737488355328))"
    using computeIPD_error_iff [of "Num 100" "Num 200" "fl (428 / 5)"] v by simp
  moreover have "isl (computeIPD (Num 100) (Num 200) NaN)"
    using computeIPD_error_iff [of "Num 100" "Num 200" NaN] by simp
  then have "computeIPD (Num 100) (Num 200) NaN = Inl InvalidInput"
    using computeIPD_error_iff [of "Num 100" "Num 200" NaN] by blast
  moreover have "isl (computeIPD PosInf (Num 200) (fl (428 / 5)))"
    using computeIPD_error_iff [of PosInf "Num 200" "fl (428 / 5)"] by simp
  then have "computeIPD PosInf (Num 200) (fl (428 / 5)) = Inl InvalidInput"
    using computeIPD_error_iff [of PosInf "Num 200" "fl (428 / 5)"] by blast
  moreover have "computeIPD (Num 100) (Num 0) (fl (428 / 5)) = Inl InvalidInput"
    using computeIPD_error_iff [of "Num 100" "Num 200" "fl (428 / 5)"] by blast
  ultimately show ?thesis by blast
qed

section \<open>Properties of CardValidator\<close>

text \<open>
  C3. For a detection with \<open>width > 0\<close> and \<open>height > 0\<close> and any configuration, \<open>validate\<close>
  returns a result, and the result is valid if and only if
  \<open>confidence >= cardConfidenceThreshold\<close> and
  \<open>|width / height - 1.586| / 1.586 <= aspectRatioTolerance\<close> and
  \<open>|angle| <= maxTiltAngle\<close>.
\<close>

theorem validate_valid_iff:
  assumes "0 < card_width d" and "0 < card_height d"
  shows "\<exists>r. validate d config = Inr r
    \<and> (isValid r \<longleftrightarrow>
          card_confidence d \<ge> cardConfidenceThreshold (detection config)
        \<and> \<bar>card_width d / card_height d - 1.586\<bar> / 1.586 \<le> aspectRatioTolerance (card config)
        \<and> \<bar>angle d\<bar> \<le> maxTiltAngle (card config))"
  using assms
  by (simp add: validate_def aspectRatio_def STANDARD_CARD_ASPECT_RATIO_def)

theorem validate_valid_iff_witness:
  "validate \<lparr>corners = [\<lparr>x = 0, y = 0\<rparr>, \<lparr>x = 159, y = 0\<rparr>, \<lparr>x = 159, y = 100\<rparr>, \<lparr>x = 0, y = 100\<rparr>],
             card_width = 159, card_height = 100, angle = 0, card_confidence = 0.9\<rparr>
     DEFAULT_CONFIG = Inr \<lparr>isValid = True, reason = OK\<rparr>"
proof -
  define d where "d = \<lparr>corners = [\<lparr>x = 0, y = 0\<rparr>, \<lparr>x = 159, y = 0\<rparr>, \<lparr>x = 159, y = 100\<rparr>,
      \<lparr>x = 0, y = 100\<rparr>], card_width = 159, card_height = 100, angle = 0,
      card_confidence = 0.9\<rparr>"
  have w: "0 < card_width d" and h: "0 < card_height d"
    by (simp_all add: d_def)
  from validate_valid_iff [OF w h, of DEFAULT_CONFIG]
  obtain r where r: "validate d DEFAULT_CONFIG = Inr r" and v: "isValid r"
    by (auto simp: d_def DEFAULT_CONFIG_def)
  from r have "reason r = OK \<or> \<not> isValid r"
    by (auto simp: validate_def split: sum.splits if_splits)
  with v have "r = \<lparr>isValid = True, reason = OK\<rparr>" by simp
  with r show ?thesis unfolding d_def by simp
qed

section \<open>Properties of DataSmoother\<close>

lemma addValue_cases:
  "addValue v t s =
     (if isOutlier v s then s else acceptSample \<lparr>sample_value = v, sample_timestamp = t\<rparr> s)"
  by (simp add: addValue_def isOutlier_def Let_def)

lemma isOutlier_iff:
  "isOutlier v s \<longleftrightarrow>
     2 \<le> length (window s) \<and> stdDev (map sample_value (window s)) \<noteq> 0
     \<and> \<bar>v - mean (map sample_value (window s))\<bar>
         > outlierStdDevThreshold s * stdDev (map sample_value (window s))"
  by (auto simp: isOutlier_def Let_def)

text \<open>
  C4. With fewer than two samples \<open>addValue\<close> accepts the value unconditionally. With at
  least two samples and a non-zero population standard deviation \<open>\<sigma>\<close> (mean \<open>\<mu>\<close>), the value
  is excluded, the smoother left as it was and the value reported by \<open>isOutlier\<close>, if
  \<open>|v - \<mu>| > outlierStdDevThreshold * \<sigma>\<close>; otherwise it is accepted. An accepted
  sample is appended to the window, the oldest sample being evicted if the window size is
  exceeded. The default threshold is 3.
\<close>

theorem addValue_outlier_rule:
  fixes s :: DataSmoother and v t :: real
  defines "sample \<equiv> \<lparr>sample_value = v, sample_timestamp = t\<rparr>"
    and "\<mu> \<equiv> mean (map sample_value (window s))"
    and "\<sigma> \<equiv> stdDev (map sample_value (window s))"
  shows "(length (window s) < 2 \<longrightarrow>
            addValue v t s = acceptSample sample s \<and> \<not> isOutlier v s)
    \<and> (2 \<le> length (window s) \<and> \<sigma> \<noteq> 0 \<longrightarrow>
          (if \<bar>v - \<mu>\<bar> > outlierStdDevThreshold s * \<sigma>
           then addValue v t s = s \<and> isOutlier v s
           else addValue v t s = acceptSample sample s \<and> \<not> isOutlier v s))
    \<and> window (acceptSample sample s) =
          (if length (window s) + 1 > smoother_windowSize s
           then tl (window s @ [sample]) else window s @ [sample])
    \<and> outlierThreshold (smoothing DEFAULT_CONFIG) = 3"
  unfolding sample_def \<mu>_def \<sigma>_def
  by (simp add: addValue_cases isOutlier_iff acceptSample_def Let_def DEFAULT_CONFIG_def)

theorem addValue_outlier_rule_witness:
  "addValue 200 5
     \<lparr>smoother_windowSize = 5, outlierStdDevThreshold = 3,
      window = [\<lparr>sample_value = 60, sample_timestamp = 0\<rparr>,
                \<lparr>sample_value = 61, sample_timestamp = 1\<rparr>,
                \<lparr>sample_value = 59, sample_timestamp = 2\<rparr>,
                \<lparr>sample_value = 60, sample_timestamp = 3\<rparr>,
                \<lparr>sample_value = 62, sample_timestamp = 4\<rparr>]\<rparr>
   = \<lparr>smoother_windowSize = 5, outlierStdDevThreshold = 3,
      window = [\<lparr>sample_value = 60, sample_timestamp = 0\<rparr>,
                \<lparr>sample_value = 61, sample_timestamp = 1\<rparr>,
                \<lparr>sample_value = 59, sample_timestamp = 2\<rparr>,
                \<lparr>sample_value = 60, sample_timestamp = 3\<rparr>,
                \<lparr>sample_value = 62, sample_timestamp = 4\<rparr>]\<rparr>
   \<and> isOutlier 200
     \<lparr>smoother_windowSize = 5, outlierStdDevThreshold = 3,
      window = [\<lparr>sample_value = 60, sample_timestamp = 0\<rparr>,
                \<lparr>sample_value = 61, sample_timestamp = 1\<rparr>,
                \<lparr>sample_value = 59, sample_timestamp = 2\<rparr>,
                \<lparr>sample_value = 60, sample_timestamp = 3\<rparr>,
                \<lparr>sample_value = 62, sample_timestamp = 4\<rparr>]\<rparr>"
proof -
  define s where "s = \<lparr>smoother_windowSize = 5, outlierStdDevThreshold = 3,
      window = [\<lparr>sample_value = 60, sample_timestamp = 0\<rparr>,
                \<lparr>sample_value = 61, sample_timestamp = 1\<rparr>,
                \<lparr>sample_value = 59, sample_timestamp = 2\<rparr>,
                \<lparr>sample_value = 60, sample_timestamp = 3\<rparr>,
                \<lparr>sample_value = 62, sample_timestamp = 4\<rparr>]\<rparr>"
  have len: "2 \<le> length (window s)"
    by (simp add: s_def)
  have m: "mean (map sample_value (window s)) = 302 / 5"
    by (simp add: s_def mean_def)
  have sd: "stdDev (map sample_value (window s)) = sqrt (26 / 25)"
    by (simp add: s_def stdDev_def mean_def power2_eq_square)
  have lt: "sqrt (26 / 25) < 2"
    by (rule real_less_lsqrt) simp_all
  have ne: "stdDev (map sample_value (window s)) \<noteq> 0"
    by (simp add: sd)
  have big: "\<bar>200 - mean (map sample_value (window s))\<bar>
      > outlierStdDevThreshold s * stdDev (map sample_value (window s))"
    unfolding m sd using lt by (simp add: s_def)
  from addValue_outlier_rule [of s 200 5] len ne big
  have "addValue 200 5 s = s \<and> isOutlier 200 s"
    by simp
  then show ?thesis unfolding s_def .
qed

lemma smoother_windowSize_addValue [simp]:
  "smoother_windowSize (addValue v t s) = smoother_windowSize s"
  by (simp add: addValue_cases acceptSample_def Let_def)

lemma smoother_windowSize_addValues [simp]:
  "smoother_windowSize (addValues calls s) = smoother_windowSize s"
  by (induction calls arbitrary: s) auto

lemma length_mostRecent: "length (mostRecent n xs) \<le> n"
  by (simp add: mostRecent_def)

lemma mostRecent_append: "mostRecent n (mostRecent n xs @ ys) = mostRecent n (xs @ ys)"
proof (cases "length xs \<le> n")
  case True
  then show ?thesis by (simp add: mostRecent_def)
next
  case False
  then have "length xs + length ys - (length xs - n) - n + (length xs - n)
      = length xs + length ys - n"
    by arith
  with False show ?thesis
    by (simp add: mostRecent_def)
qed

lemma window_acceptSample:
  assumes "length (window s) \<le> smoother_windowSize s"
  shows "window (acceptSample sample s) = mostRecent (smoother_windowSize s) (window s @ [sample])"
proof (cases "length (window s) = smoother_windowSize s")
  case True
  then have "mostRecent (smoother_windowSize s) (window s @ [sample])
      = drop 1 (window s @ [sample])"
    by (simp add: mostRecent_def)
  also have "\<dots> = tl (window s @ [sample])"
    by (simp only: One_nat_def drop_Suc drop_0)
  finally show ?thesis using True
    by (simp add: acceptSample_def Let_def)
next
  case False
  with assms have "length (window s) < smoother_windowSize s" by simp
  then show ?thesis
    by (simp add: acceptSample_def Let_def mostRecent_def)
qed

lemma window_addValues:
  assumes "length (window s) \<le> smoother_windowSize s"
  shows "window (addValues calls s)
    = mostRecent (smoother_windowSize s) (window s @ acceptedSamples calls s)"
  using assms
proof (induction calls arbitrary: s)
  case Nil
  then show ?case by (simp add: mostRecent_def)
next
  case (Cons c calls)
  obtain v t where c: "c = (v, t)" by (cases c)
  let ?n = "smoother_windowSize s"
  let ?x = "\<lparr>sample_value = v, sample_timestamp = t\<rparr>"
  show ?case
  proof (cases "isOutlier v s")
    case True
    then have "addValue v t s = s" by (simp add: addValue_cases)
    with True Cons c show ?thesis by simp
  next
    case False
    then have a: "addValue v t s = acceptSample ?x s" by (simp add: addValue_cases)
    have w: "window (addValue v t s) = mostRecent ?n (window s @ [?x])"
      unfolding a using Cons.prems by (rule window_acceptSample)
    then have "length (window (addValue v t s)) \<le> smoother_windowSize (addValue v t s)"
      by (simp add: length_mostRecent)
    from Cons.IH [OF this]
    have "window (addValues calls (addValue v t s))
        = mostRecent ?n (mostRecent ?n (window s @ [?x]) @ acceptedSamples calls (addValue v t s))"
      by (simp add: w)
    also have "\<dots> = mostRecent ?n ((window s @ [?x]) @ acceptedSamples calls (addValue v t s))"
      by (rule mostRecent_append)
    finally show ?thesis using False c by simp
  qed
qed

text \<open>
  C5. After any sequence of \<open>addValue\<close> calls on a fresh or reset smoother, the window
  holds at most \<open>windowSize\<close> samples, and they are the most recent accepted ones, in the
  order of their acceptance: the oldest is evicted first.
\<close>

theorem window_bounded_most_recent:
  assumes "window s = []"
  shows "length (window (addValues calls s)) \<le> smoother_windowSize s
    \<and> window (addValues calls s) = mostRecent (smoother_windowSize s) (acceptedSamples calls s)
    \<and> window (new_DataSmoother n threshold) = []
    \<and> window (reset s') = []"
proof -
  from assms have "length (window s) \<le> smoother_windowSize s" by simp
  from window_addValues [OF this, of calls] assms
  have w: "window (addValues calls s) = mostRecent (smoother_windowSize s) (acceptedSamples calls s)"
    by simp
  then have "length (window (addValues calls s)) \<le> smoother_windowSize s"
    by (simp add: length_mostRecent)
  with w show ?thesis
    by (simp add: new_DataSmoother_def reset_def)
qed

theorem window_bounded_most_recent_witness:
  "window (addValues [(60, 0), (61, 1), (59, 2)] (new_DataSmoother 2 3))
     = [\<lparr>sample_value = 61, sample_timestamp = 1\<rparr>, \<lparr>sample_value = 59, sample_timestamp = 2\<rparr>]
   \<and> length (window (addValues [(60, 0), (61, 1), (59, 2)] (new_DataSmoother 2 3))) \<le> 2"
proof -
  have e: "window (new_DataSmoother 2 3) = []"
    by (simp add: new_DataSmoother_def)
  have n: "smoother_windowSize (new_DataSmoother 2 3) = 2"
    by (simp add: new_DataSmoother_def)
  have o1: "\<not> isOutlier 60 (new_DataSmoother 2 3)"
    by (simp add: isOutlier_iff new_DataSmoother_def)
  have s1: "addValue 60 0 (new_DataSmoother 2 3) = \<lparr>smoother_windowSize = 2,
      outlierStdDevThreshold = 3, window = [\<lparr>sample_value = 60, sample_timestamp = 0\<rparr>]\<rparr>"
    by (simp add: addValue_cases isOutlier_iff acceptSample_def new_DataSmoother_def)
  have o2: "\<not> isOutlier 61 \<lparr>smoother_windowSize = 2,
      outlierStdDevThreshold = 3, window = [\<lparr>sample_value = 60, sample_timestamp = 0\<rparr>]\<rparr>"
    by (simp add: isOutlier_iff)
  have s2: "addValue 61 1 \<lparr>smoother_windowSize = 2,
      outlierStdDevThreshold = 3, window = [\<lparr>sample_value = 60, sample_timestamp = 0\<rparr>]\<rparr>
    = \<lparr>smoother_windowSize = 2, outlierStdDevThreshold = 3,
       window = [\<lparr>sample_value = 60, sample_timestamp = 0\<rparr>,
                 \<lparr>sample_value = 61, sample_timestamp = 1\<rparr>]\<rparr>"
    by (simp add: addValue_cases isOutlier_iff acceptSample_def)
  have sd: "stdDev [60, 61] = 1 / 2"
    by (simp add: stdDev_def mean_def power2_eq_square real_sqrt_divide)
  have o3: "\<not> isOutlier 59 \<lparr>smoother_windowSize = 2, outlierStdDevThreshold = 3,
       window = [\<lparr>sample_value = 60, sample_timestamp = 0\<rparr>,
                 \<lparr>sample_value = 61, sample_timestamp = 1\<rparr>]\<rparr>"
    by (simp add: isOutlier_iff sd mean_def)
  have acc: "acceptedSamples [(60, 0), (61, 1), (59, 2)] (new_DataSmoother 2 3)
    = [\<lparr>sample_value = 60, sample_timestamp = 0\<rparr>, \<lparr>sample_value = 61, sample_timestamp = 1\<rparr>,
       \<lparr>sample_value = 59, sample_timestamp = 2\<rparr>]"
    by (simp add: o1 s1 o2 s2 o3)
  from window_bounded_most_recent [OF e, of "[(60, 0), (61, 1), (59, 2)]"]
  have "length (window (addValues [(60, 0), (61, 1), (59, 2)] (new_DataSmoother 2 3)))
      \<le> smoother_windowSize (new_DataSmoother 2 3)
    \<and> window (addValues [(60, 0), (61, 1), (59, 2)] (new_DataSmoother 2 3))
      = mostRecent (smoother_windowSize (new_DataSmoother 2 3))
          (acceptedSamples [(60, 0), (61, 1), (59, 2)] (new_DataSmoother 2 3))"
    by blast
  then show ?thesis
    unfolding n acc by (simp add: mostRecent_def)
qed
end
